theory Spec2Isabelle
  imports Main "HOL-Library.Sublist"
begin

section \<open>Strings and numbers of the host language\<close>

text \<open>
  The program is TypeScript. A string of the program is modelled as a \<open>string\<close> whose
  characters are the code units \<open>0..255\<close> (the Latin-1 range of UTF-16), a number as an
  \<open>int\<close> (time stamps, sizes and limits are integral), and \<open>Date.now()\<close> as an explicit
  argument of the function that reads the clock.
\<close>

definition isSpace :: "char \<Rightarrow> bool" where
  \<comment> \<open>the class \<open>\s\<close> of a regular expression, on the code units below 256\<close>
  "isSpace c = (of_char c \<in> {9, 10, 11, 12, 13, 32, 160 :: nat})"

definition isWordChar :: "char \<Rightarrow> bool" where
  \<comment> \<open>the class \<open>\w\<close>: \<open>[A-Za-z0-9_]\<close>\<close>
  "isWordChar c = (let n = (of_char c :: nat) in
     (65 \<le> n \<and> n \<le> 90) \<or> (97 \<le> n \<and> n \<le> 122) \<or> (48 \<le> n \<and> n \<le> 57) \<or> n = 95)"

definition asciiLower :: "char \<Rightarrow> char" where
  \<comment> \<open>case folding of the \<open>i\<close> flag against an ASCII pattern letter\<close>
  "asciiLower c = (let n = (of_char c :: nat) in
     if 65 \<le> n \<and> n \<le> 90 then char_of (n + 32) else c)"

definition lowerChar :: "char \<Rightarrow> char" where
  \<comment> \<open>\<open>String.prototype.toLowerCase\<close> on one code unit below 256: \<open>A-Z\<close> and the
      Latin-1 capitals \<open>U+00C0..U+00DE\<close> (without the sign \<open>U+00D7\<close>) move up by 32\<close>
  "lowerChar c = (let n = (of_char c :: nat) in
     if (65 \<le> n \<and> n \<le> 90) \<or> (192 \<le> n \<and> n \<le> 222 \<and> n \<noteq> 215) then char_of (n + 32) else c)"

definition toLowerCase :: "string \<Rightarrow> string" where
  "toLowerCase s = map lowerChar s"

fun startsWith :: "string \<Rightarrow> string \<Rightarrow> bool" where
  "startsWith s [] = True"
| "startsWith [] (p # ps) = False"
| "startsWith (c # cs) (p # ps) = (c = p \<and> startsWith cs ps)"

fun includesStr :: "string \<Rightarrow> string \<Rightarrow> bool" where
  \<comment> \<open>\<open>s.includes(k)\<close>: \<open>k\<close> occurs in \<open>s\<close> as a contiguous substring\<close>
  "includesStr [] k = (k = [])"
| "includesStr (c # cs) k = (startsWith (c # cs) k \<or> includesStr cs k)"

definition digitChar :: "nat \<Rightarrow> char" where
  \<comment> \<open>the digit of a value below 10\<close>
  "digitChar d = ''0123456789'' ! d"

definition hexChar :: "nat \<Rightarrow> char" where
  \<comment> \<open>the hexadecimal digit of a value below 16\<close>
  "hexChar d = ''0123456789abcdef'' ! d"

function showNat :: "nat \<Rightarrow> string" where
  "showNat n = (if n < 10 then [digitChar n] else showNat (n div 10) @ [digitChar (n mod 10)])"
  by pat_completeness auto
termination
  by (relation "measure id") auto

declare showNat.simps [simp del]

definition showInt :: "int \<Rightarrow> string" where
  \<comment> \<open>a number inside a template literal\<close>
  "showInt i = (if i < 0 then CHR ''-'' # showNat (nat (- i)) else showNat (nat i))"

function showHexNat :: "nat \<Rightarrow> string" where
  "showHexNat n = (if n < 16 then [hexChar n] else showHexNat (n div 16) @ [hexChar (n mod 16)])"
  by pat_completeness auto
termination
  by (relation "measure id") auto

declare showHexNat.simps [simp del]

definition byteLength :: "string \<Rightarrow> int" where
  \<comment> \<open>\<open>Buffer.byteLength(s, 'utf8')\<close>: a code unit below 128 is one byte, the others
      (up to 255) are two\<close>
  "byteLength s = (\<Sum>c\<leftarrow>s. if (of_char c :: nat) < 128 then 1 else 2)"

fun joinWith :: "string \<Rightarrow> string list \<Rightarrow> string" where
  "joinWith sep [] = []"
| "joinWith sep [x] = x"
| "joinWith sep (x # y # ys) = x @ sep @ joinWith sep (y # ys)"

definition trim :: "string \<Rightarrow> string" where
  "trim s = rev (dropWhile isSpace (rev (dropWhile isSpace s)))"

fun splitOn :: "char \<Rightarrow> string \<Rightarrow> string list" where
  \<comment> \<open>\<open>s.split(c)\<close> for a separator of one character\<close>
  "splitOn sep [] = [[]]"
| "splitOn sep (c # cs) =
     (if c = sep then [] # splitOn sep cs
      else (case splitOn sep cs of [] \<Rightarrow> [[c]] | x # xs \<Rightarrow> (c # x) # xs))"

subsection \<open>Values of type \<open>any\<close>\<close>

text \<open>
  A payload of type \<open>any\<close> is a closed tagged union. The entries of an object are listed
  in the order of \<open>Object.entries\<close>, with distinct keys. \<open>JBigInt\<close> stands for the
  values that \<open>JSON.stringify\<close> refuses with a \<open>TypeError\<close>.
\<close>

datatype jsvalue =
    JUndefined
  | JNull
  | JBool bool
  | JNumber int
  | JBigInt int
  | JString string
  | JArray "jsvalue list"
  | JObject "(string \<times> jsvalue) list"

datatype error =
    Error string
  | TypeError string
  | ShortcutNotFoundError string
  | ExecutionError string
  | TimeoutError string

fun errorMessage :: "error \<Rightarrow> string" where
  "errorMessage (Error m) = m"
| "errorMessage (TypeError m) = m"
| "errorMessage (ShortcutNotFoundError m) = m"
| "errorMessage (ExecutionError m) = m"
| "errorMessage (TimeoutError m) = m"

fun errorCode :: "error \<Rightarrow> string option" where
  \<comment> \<open>the \<open>code\<close> field of the subclasses of \<open>MCPError\<close>\<close>
  "errorCode (Error m) = None"
| "errorCode (TypeError m) = None"
| "errorCode (ShortcutNotFoundError m) = Some ''SHORTCUT_NOT_FOUND''"
| "errorCode (ExecutionError m) = Some ''EXECUTION_ERROR''"
| "errorCode (TimeoutError m) = Some ''EXECUTION_TIMEOUT''"

fun truthy :: "jsvalue \<Rightarrow> bool" where
  "truthy JUndefined = False"
| "truthy JNull = False"
| "truthy (JBool b) = b"
| "truthy (JNumber n) = (n \<noteq> 0)"
| "truthy (JBigInt n) = (n \<noteq> 0)"
| "truthy (JString s) = (s \<noteq> [])"
| "truthy (JArray xs) = True"
| "truthy (JObject kvs) = True"

fun getProp :: "jsvalue \<Rightarrow> string \<Rightarrow> jsvalue" where
  \<comment> \<open>\<open>v?.key\<close> for the keys the program reads (\<open>name\<close>, \<open>arguments\<close>, \<open>input\<close>,
      \<open>timeout\<close>, ...): only an object has them\<close>
  "getProp (JObject kvs) key = (case map_of kvs key of None \<Rightarrow> JUndefined | Some v \<Rightarrow> v)"
| "getProp v key = JUndefined"

fun toStringJS :: "jsvalue \<Rightarrow> string" where
  \<comment> \<open>the conversion of a value inside a template literal\<close>
  "toStringJS JUndefined = ''undefined''"
| "toStringJS JNull = ''null''"
| "toStringJS (JBool b) = (if b then ''true'' else ''false'')"
| "toStringJS (JNumber n) = showInt n"
| "toStringJS (JBigInt n) = showInt n"
| "toStringJS (JString s) = s"
| "toStringJS (JArray xs) =
     joinWith '','' (map (\<lambda>x. case x of JUndefined \<Rightarrow> [] | JNull \<Rightarrow> [] | _ \<Rightarrow> toStringJS x) xs)"
| "toStringJS (JObject kvs) = ''[object Object]''"

definition escapeJSONChar :: "char \<Rightarrow> string" where
  "escapeJSONChar c = (let n = (of_char c :: nat) in
     if n = 34 then [CHR 0x5C, CHR 0x22]
     else if n = 92 then [CHR 0x5C, CHR 0x5C]
     else if n = 8 then [CHR 0x5C, CHR ''b'']
     else if n = 9 then [CHR 0x5C, CHR ''t'']
     else if n = 10 then [CHR 0x5C, CHR ''n'']
     else if n = 12 then [CHR 0x5C, CHR ''f'']
     else if n = 13 then [CHR 0x5C, CHR ''r'']
     else if n < 16 then [CHR 0x5C, CHR ''u'', CHR ''0'', CHR ''0'', CHR ''0''] @ showHexNat n
     else if n < 32 then [CHR 0x5C, CHR ''u'', CHR ''0'', CHR ''0''] @ showHexNat n
     else [c])"

definition quoteJSON :: "string \<Rightarrow> string" where
  "quoteJSON s = [CHR 0x22] @ concat (map escapeJSONChar s) @ [CHR 0x22]"

fun stringify :: "jsvalue \<Rightarrow> error + string option"
  and stringifyElems :: "jsvalue list \<Rightarrow> error + string list"
  and stringifyProps :: "(string \<times> jsvalue) list \<Rightarrow> error + string list" where
  \<comment> \<open>\<open>JSON.stringify\<close>: \<open>Inr None\<close> is the result \<open>undefined\<close>, \<open>Inl\<close> a thrown error\<close>
  "stringify JUndefined = Inr None"
| "stringify JNull = Inr (Some ''null'')"
| "stringify (JBool b) = Inr (Some (if b then ''true'' else ''false''))"
| "stringify (JNumber n) = Inr (Some (showInt n))"
| "stringify (JBigInt n) = Inl (TypeError ''Do not know how to serialize a BigInt'')"
| "stringify (JString s) = Inr (Some (quoteJSON s))"
| "stringify (JArray xs) =
     (case stringifyElems xs of
        Inl e \<Rightarrow> Inl e
      | Inr rs \<Rightarrow> Inr (Some (''['' @ joinWith '','' rs @ '']'')))"
| "stringify (JObject kvs) =
     (case stringifyProps kvs of
        Inl e \<Rightarrow> Inl e
      | Inr rs \<Rightarrow> Inr (Some (''{'' @ joinWith '','' rs @ ''}'')))"
| "stringifyElems [] = Inr []"
| "stringifyElems (x # xs) =
     (case stringify x of
        Inl e \<Rightarrow> Inl e
      | Inr r \<Rightarrow>
          (case stringifyElems xs of
             Inl e \<Rightarrow> Inl e
           | Inr rs \<Rightarrow> Inr ((case r of None \<Rightarrow> ''null'' | Some t \<Rightarrow> t) # rs)))"
| "stringifyProps [] = Inr []"
| "stringifyProps (kv # kvs) =
     (case stringify (snd kv) of
        Inl e \<Rightarrow> Inl e
      | Inr r \<Rightarrow>
          (case stringifyProps kvs of
             Inl e \<Rightarrow> Inl e
           | Inr rs \<Rightarrow>
               Inr ((case r of None \<Rightarrow> [] | Some t \<Rightarrow> [quoteJSON (fst kv) @ '':'' @ t]) @ rs)))"

subsection \<open>Regular expressions\<close>

text \<open>
  A regular expression of the program is modelled by a matcher: applied to the text that
  starts at the current position, it returns the text that follows the match, or \<open>None\<close>
  where the expression does not match at that position. In every expression of the program
  a greedy repetition is followed by a character outside the repeated class, so the greedy
  choice is the only one that can lead to a match and the matchers do not backtrack.
\<close>

fun stripLit :: "string \<Rightarrow> string \<Rightarrow> string option" where
  \<comment> \<open>a literal\<close>
  "stripLit [] s = Some s"
| "stripLit (p # ps) [] = None"
| "stripLit (p # ps) (c # cs) = (if c = p then stripLit ps cs else None)"

fun stripCI :: "string \<Rightarrow> string \<Rightarrow> string option" where
  \<comment> \<open>a literal under the \<open>i\<close> flag; the pattern is written in lower case\<close>
  "stripCI [] s = Some s"
| "stripCI (p # ps) [] = None"
| "stripCI (p # ps) (c # cs) = (if asciiLower c = p then stripCI ps cs else None)"

function replaceAll :: "(string \<Rightarrow> string option) \<Rightarrow> string \<Rightarrow> string \<Rightarrow> string" where
  \<comment> \<open>\<open>s.replace(/.../g, r)\<close>: the matches are found from left to right, the search
      resumes after each match, and after an empty match it moves on by one character\<close>
  "replaceAll m r [] = (case m [] of None \<Rightarrow> [] | Some rest \<Rightarrow> r)"
| "replaceAll m r (c # cs) =
     (case m (c # cs) of
        None \<Rightarrow> c # replaceAll m r cs
      | Some rest \<Rightarrow>
          if length rest \<le> length cs then r @ replaceAll m r rest
          else r @ c # replaceAll m r cs)"
  by pat_completeness auto
termination
  by (relation "measure (\<lambda>(m, r, s). length s)") auto

fun testRegex :: "(string \<Rightarrow> string option) \<Rightarrow> string \<Rightarrow> bool" where
  \<comment> \<open>\<open>pattern.test(s)\<close>: the expression matches at some position of \<open>s\<close>\<close>
  "testRegex m [] = (m [] \<noteq> None)"
| "testRegex m (c # cs) = (m (c # cs) \<noteq> None \<or> testRegex m cs)"

definition someSpaces :: "string \<Rightarrow> string option" where
  \<comment> \<open>\<open>\s+\<close>\<close>
  "someSpaces s = (case s of [] \<Rightarrow> None | c # cs \<Rightarrow> if isSpace c then Some (dropWhile isSpace cs) else None)"

definition matchRmRf :: "string \<Rightarrow> string option" where
  \<comment> \<open>\<open>/rm\s+-rf/\<close>\<close>
  "matchRmRf s = (case stripLit ''rm'' s of None \<Rightarrow> None
     | Some r \<Rightarrow> (case someSpaces r of None \<Rightarrow> None | Some r' \<Rightarrow> stripLit ''-rf'' r'))"

definition matchSudo :: "string \<Rightarrow> string option" where
  \<comment> \<open>\<open>/sudo\s+/\<close>\<close>
  "matchSudo s = (case stripLit ''sudo'' s of None \<Rightarrow> None | Some r \<Rightarrow> someSpaces r)"

definition matchPasswd :: "string \<Rightarrow> string option" where
  \<comment> \<open>\<open>/passwd/\<close>\<close>
  "matchPasswd s = stripLit ''passwd'' s"

definition matchDeleteFrom :: "string \<Rightarrow> string option" where
  \<comment> \<open>\<open>/delete\s+from/i\<close>\<close>
  "matchDeleteFrom s = (case stripCI ''delete'' s of None \<Rightarrow> None
     | Some r \<Rightarrow> (case someSpaces r of None \<Rightarrow> None | Some r' \<Rightarrow> stripCI ''from'' r'))"

definition matchDropTable :: "string \<Rightarrow> string option" where
  \<comment> \<open>\<open>/drop\s+table/i\<close>\<close>
  "matchDropTable s = (case stripCI ''drop'' s of None \<Rightarrow> None
     | Some r \<Rightarrow> (case someSpaces r of None \<Rightarrow> None | Some r' \<Rightarrow> stripCI ''table'' r'))"

fun scriptBody :: "string \<Rightarrow> string option" where
  \<comment> \<open>\<open>[^<]*(?:(?!<\/script>)<[^<]*)*<\/script>\<close>: the characters other than \<open><\<close> are
      passed over, a \<open><\<close> that does not open \<open></script>\<close> is passed over with them, and
      the first \<open></script>\<close> ends the match\<close>
  "scriptBody [] = None"
| "scriptBody (c # cs) =
     (if c = CHR ''<''
      then (case stripCI ''</script>'' (c # cs) of Some rest \<Rightarrow> Some rest | None \<Rightarrow> scriptBody cs)
      else scriptBody cs)"

definition matchScript :: "string \<Rightarrow> string option" where
  \<comment> \<open>\<open>/<script\b[^<]*(?:(?!<\/script>)<[^<]*)*<\/script>/gi\<close>; after the word character
      \<open>t\<close>, \<open>\b\<close> holds where no word character follows\<close>
  "matchScript s = (case stripCI ''<script'' s of None \<Rightarrow> None
     | Some r \<Rightarrow> (case r of [] \<Rightarrow> None
                  | c # cs \<Rightarrow> if isWordChar c then None else scriptBody r))"

definition matchJavascript :: "string \<Rightarrow> string option" where
  \<comment> \<open>\<open>/javascript:/gi\<close>\<close>
  "matchJavascript s = stripCI ''javascript:'' s"

definition matchVbscript :: "string \<Rightarrow> string option" where
  \<comment> \<open>\<open>/vbscript:/gi\<close>\<close>
  "matchVbscript s = stripCI ''vbscript:'' s"

definition matchOnHandler :: "string \<Rightarrow> string option" where
  \<comment> \<open>\<open>/on\w+\s*=/gi\<close>\<close>
  "matchOnHandler s = (case stripCI ''on'' s of None \<Rightarrow> None
     | Some r \<Rightarrow> (case r of [] \<Rightarrow> None
        | c # cs \<Rightarrow> if isWordChar c
            then (case dropWhile isSpace (dropWhile isWordChar cs) of
                    [] \<Rightarrow> None
                  | d # r' \<Rightarrow> if d = CHR ''='' then Some r' else None)
            else None))"

definition afterSep :: "string \<Rightarrow> string option" where
  \<comment> \<open>\<open>\s*\S+\<close>\<close>
  "afterSep s = (case dropWhile isSpace s of [] \<Rightarrow> None
     | x # r \<Rightarrow> Some (dropWhile (\<lambda>c. \<not> isSpace c) r))"

definition afterKey :: "string \<Rightarrow> string option" where
  \<comment> \<open>\<open>\s*[:=]\s*\S+\<close>\<close>
  "afterKey s = (case dropWhile isSpace s of [] \<Rightarrow> None
     | d # r \<Rightarrow> if d = CHR '':'' \<or> d = CHR ''='' then afterSep r else None)"

definition matchKeyValue :: "string \<Rightarrow> string \<Rightarrow> string option" where
  \<comment> \<open>\<open>/kw\s*[:=]\s*\S+/gi\<close> for the key word \<open>kw\<close>\<close>
  "matchKeyValue kw s = (case stripCI kw s of None \<Rightarrow> None | Some r \<Rightarrow> afterKey r)"

section \<open>Security Manager\<close>

datatype SecurityRiskLevel = LOW | MEDIUM | HIGH | CRITICAL

record SecurityResult =
  allowed :: bool
  reason :: "string option"
  riskLevel :: SecurityRiskLevel

record RateLimitConfig =
  windowMs :: int
  maxRequests :: int

record SecurityConfig =
  requireConfirmation :: bool
  logExecutions :: bool
  allowSystemShortcuts :: bool
  sandboxMode :: bool
  maxInputSize :: int
  enableRateLimit :: bool
  allowedPrefixes :: "string list"
  blockedShortcuts :: "string list"
  rateLimit :: RateLimitConfig

subsection \<open>Rate limiter\<close>

type_synonym RateLimitTracker = "string \<rightharpoonup> int list"

definition checkRateLimit ::
  "SecurityConfig \<Rightarrow> int \<Rightarrow> RateLimitTracker \<Rightarrow> string \<Rightarrow> SecurityResult \<times> RateLimitTracker" where
  "checkRateLimit cfg now tracker clientId =
     (let window = windowMs (rateLimit cfg);
          maxReq = maxRequests (rateLimit cfg);
          requestTimes = (case tracker clientId of None \<Rightarrow> [] | Some ts \<Rightarrow> ts);
          requestTimes' = filter (\<lambda>time. now - time < window) requestTimes
      in if int (length requestTimes') \<ge> maxReq
         then (\<lparr>allowed = False,
                reason = Some (''Rate limit exceeded: '' @ showInt maxReq @ '' requests per ''
                               @ showInt window @ ''ms''),
                riskLevel = MEDIUM\<rparr>, tracker)
         else (\<lparr>allowed = True, reason = None, riskLevel = LOW\<rparr>,
               tracker(clientId \<mapsto> requestTimes' @ [now])))"

subsection \<open>Allow and block lists\<close>

definition systemKeywords :: "string list" where
  "systemKeywords = [''system'', ''setting'', ''preference'', ''config'', ''admin'',
                     ''security'', ''password'', ''keychain'', ''permission'']"

definition isSystemShortcut :: "string \<Rightarrow> bool" where
  "isSystemShortcut shortcutName =
     (let lowerName = toLowerCase shortcutName
      in list_ex (\<lambda>keyword. includesStr lowerName keyword) systemKeywords)"

definition isShortcutAllowed :: "SecurityConfig \<Rightarrow> string \<Rightarrow> bool" where
  "isShortcutAllowed cfg shortcutName =
     (if shortcutName \<in> set (blockedShortcuts cfg) then False
      else if \<not> allowSystemShortcuts cfg \<and> isSystemShortcut shortcutName then False
      else if length (allowedPrefixes cfg) > 0
      then (let hasAllowedPrefix = list_ex (\<lambda>prefix. startsWith shortcutName prefix) (allowedPrefixes cfg)
            in if \<not> hasAllowedPrefix then False else True)
      else True)"

definition isShortcutAllowedAny :: "SecurityConfig \<Rightarrow> jsvalue \<Rightarrow> error + bool" where
  \<comment> \<open>\<open>isShortcutAllowed\<close> as \<open>validateRunShortcut\<close> calls it, on a name of type \<open>any\<close>: a
      value that is not a string is on no block list and has neither \<open>toLowerCase\<close> nor
      \<open>startsWith\<close>\<close>
  "isShortcutAllowedAny cfg v =
     (case v of
        JString shortcutName \<Rightarrow> Inr (isShortcutAllowed cfg shortcutName)
      | _ \<Rightarrow>
          if \<not> allowSystemShortcuts cfg
          then Inl (TypeError ''shortcutName.toLowerCase is not a function'')
          else if length (allowedPrefixes cfg) > 0
          then Inl (TypeError ''shortcutName.startsWith is not a function'')
          else Inr True)"

subsection \<open>Input validation, sanitization, output filtering\<close>

record ValidationError =
  code :: string
  message :: string
  field :: string
  "value" :: int

record ValidationWarning =
  w_code :: string
  w_message :: string
  w_field :: string
  w_suggestion :: string

record ValidationResult =
  valid :: bool
  errors :: "ValidationError list"
  warnings :: "ValidationWarning list"

definition calculateInputSize :: "jsvalue \<Rightarrow> int" where
  \<comment> \<open>\<open>Buffer.byteLength\<close> throws on \<open>undefined\<close>; the \<open>catch\<close> turns every throw into 0\<close>
  "calculateInputSize input =
     (case input of
        JString s \<Rightarrow> byteLength s
      | _ \<Rightarrow> (case stringify input of
                 Inr (Some t) \<Rightarrow> byteLength t
               | Inr None \<Rightarrow> 0
               | Inl e \<Rightarrow> 0))"

definition dangerousPatterns :: "(string \<Rightarrow> string option) list" where
  "dangerousPatterns = [matchRmRf, matchSudo, matchPasswd, matchDeleteFrom, matchDropTable]"

definition validateInput :: "SecurityConfig \<Rightarrow> jsvalue \<Rightarrow> ValidationResult" where
  "validateInput cfg input =
     (let errs =
            (if truthy input \<and> maxInputSize cfg \<noteq> 0
             then (let inputSize = calculateInputSize input
                   in if inputSize > maxInputSize cfg
                      then [\<lparr>code = ''INPUT_TOO_LARGE'',
                             message = ''Input size '' @ showInt inputSize @ '' exceeds maximum ''
                                       @ showInt (maxInputSize cfg),
                             field = ''input'',
                             value = inputSize\<rparr>]
                      else [])
             else []);
          warns =
            (case input of
               JString s \<Rightarrow>
                 if list_ex (\<lambda>pattern. testRegex pattern s) dangerousPatterns
                 then [\<lparr>w_code = ''POTENTIALLY_DANGEROUS_CONTENT'',
                        w_message = ''Input contains potentially dangerous content'',
                        w_field = ''input'',
                        w_suggestion = ''Review input for security implications''\<rparr>]
                 else []
             | _ \<Rightarrow> [])
      in \<lparr>valid = (length errs = 0), errors = errs, warnings = warns\<rparr>)"

definition sanitizeString :: "string \<Rightarrow> string" where
  "sanitizeString s =
     replaceAll matchOnHandler []
       (replaceAll matchVbscript []
         (replaceAll matchJavascript []
           (replaceAll matchScript [] s)))"

fun sanitizeInput :: "jsvalue \<Rightarrow> jsvalue" where
  \<comment> \<open>an array has the type \<open>object\<close>: its entries are the pairs of an index, written as a
      decimal string, and an element, and they are stored into a fresh plain object; the
      assignment \<open>sanitized[key] = ...\<close> under the key \<open>__proto__\<close> stores no entry (it sets
      the prototype, which the values of the model do not have)\<close>
  "sanitizeInput (JString s) = JString (sanitizeString s)"
| "sanitizeInput (JArray xs) =
     JObject (zip (map showNat [0 ..< length xs]) (map sanitizeInput xs))"
| "sanitizeInput (JObject kvs) =
     JObject (map (\<lambda>kv. (fst kv, sanitizeInput (snd kv)))
                (filter (\<lambda>kv. fst kv \<noteq> ''__proto__'') kvs))"
| "sanitizeInput v = v"

definition redact :: "string \<Rightarrow> string \<Rightarrow> string" where
  \<comment> \<open>\<open>s.replace(/kw\s*[:=]\s*\S+/gi, 'kw: [REDACTED]')\<close>\<close>
  "redact kw s = replaceAll (matchKeyValue kw) (kw @ '': [REDACTED]'') s"

definition filterString :: "string \<Rightarrow> string" where
  "filterString s = redact ''secret'' (redact ''key'' (redact ''token'' (redact ''password'' s)))"

fun filterOutput :: "jsvalue \<Rightarrow> jsvalue" where
  "filterOutput (JString s) = JString (filterString s)"
| "filterOutput v = v"

subsection \<open>Audit log\<close>

record AuditEntry =
  entry_id :: string
  entry_timestamp :: int
  entry_operation :: string
  entry_shortcutName :: string
  entry_input :: jsvalue
  entry_success :: bool
  entry_executionTime :: int
  entry_error :: "string option"
  entry_riskLevel :: SecurityRiskLevel

text \<open>The argument \<open>details\<close> of \<open>logExecution\<close>.\<close>

record ExecutionDetails =
  det_input :: jsvalue
  det_executionTime :: int
  det_success :: bool
  det_error :: "string option"

text \<open>What \<open>logExecution\<close> reads from outside: the clock, twice, and \<open>Math.random()\<close>,
  already in base 36.\<close>

record LogEnv =
  idNow :: int
  idRandom :: string
  entryNow :: int

definition sliceFrom :: "int \<Rightarrow> 'a list \<Rightarrow> 'a list" where
  \<comment> \<open>\<open>xs.slice(start)\<close>: a negative start counts from the end\<close>
  "sliceFrom start xs =
     (if start < 0 then drop (nat (max (int (length xs) + start) 0)) xs
      else drop (nat start) xs)"

definition assessRiskLevel :: "string \<Rightarrow> ExecutionDetails \<Rightarrow> SecurityRiskLevel" where
  "assessRiskLevel shortcutName details =
     (if isSystemShortcut shortcutName then HIGH
      else if \<not> det_success details then MEDIUM
      else if det_executionTime details > 30000 then MEDIUM
      else LOW)"

definition generateId :: "LogEnv \<Rightarrow> string" where
  "generateId env = ''audit_'' @ showInt (idNow env) @ ''_'' @ idRandom env"

definition newAuditEntry ::
  "SecurityConfig \<Rightarrow> LogEnv \<Rightarrow> string \<Rightarrow> ExecutionDetails \<Rightarrow> AuditEntry" where
  \<comment> \<open>the constant \<open>entry\<close> of \<open>logExecution\<close>\<close>
  "newAuditEntry cfg env shortcutName details =
     \<lparr>entry_id = generateId env,
      entry_timestamp = entryNow env,
      entry_operation = ''shortcut_execution'',
      entry_shortcutName = shortcutName,
      entry_input = (if logExecutions cfg then det_input details else JString ''[NOT_LOGGED]''),
      entry_success = det_success details,
      entry_executionTime = det_executionTime details,
      entry_error = det_error details,
      entry_riskLevel = assessRiskLevel shortcutName details\<rparr>"

definition logExecution ::
  "SecurityConfig \<Rightarrow> LogEnv \<Rightarrow> AuditEntry list \<Rightarrow> string \<Rightarrow> ExecutionDetails \<Rightarrow> AuditEntry list" where
  "logExecution cfg env auditLog shortcutName details =
     (let entry = newAuditEntry cfg env shortcutName details;
          auditLog' = auditLog @ [entry]
      in if length auditLog' > 1000 then sliceFrom (- 1000) auditLog' else auditLog')"

definition getAuditLog :: "int \<Rightarrow> AuditEntry list \<Rightarrow> AuditEntry list" where
  "getAuditLog limit auditLog = sliceFrom (- limit) auditLog"

definition clearAuditLog :: "AuditEntry list \<Rightarrow> AuditEntry list" where
  "clearAuditLog auditLog = []"

text \<open>A sequence of calls of \<open>logExecution\<close>, each with its own arguments.\<close>

fun logAll ::
  "SecurityConfig \<Rightarrow> AuditEntry list \<Rightarrow> (LogEnv \<times> string \<times> ExecutionDetails) list \<Rightarrow> AuditEntry list" where
  "logAll cfg auditLog [] = auditLog"
| "logAll cfg auditLog (c # calls) =
     logAll cfg (logExecution cfg (fst c) auditLog (fst (snd c)) (snd (snd c))) calls"

subsection \<open>Request validation\<close>

record MCPRequest =
  "method" :: string
  params :: jsvalue

definition validateRunShortcut :: "SecurityConfig \<Rightarrow> jsvalue \<Rightarrow> error + SecurityResult" where
  "validateRunShortcut cfg args =
     (if \<not> truthy (getProp args ''name'')
      then Inr \<lparr>allowed = False, reason = Some ''Shortcut name is required'', riskLevel = MEDIUM\<rparr>
      else (case isShortcutAllowedAny cfg (getProp args ''name'') of
              Inl e \<Rightarrow> Inl e
            | Inr ok \<Rightarrow>
                if \<not> ok
                then Inr \<lparr>allowed = False,
                          reason = Some (''Shortcut \"'' @ toStringJS (getProp args ''name'')
                                         @ ''\" is not allowed''),
                          riskLevel = HIGH\<rparr>
                else if getProp args ''input'' \<noteq> JUndefined
                        \<and> \<not> valid (validateInput cfg (getProp args ''input''))
                then Inr \<lparr>allowed = False,
                          reason = Some (''Input validation failed: ''
                                         @ (case errors (validateInput cfg (getProp args ''input'')) of
                                              [] \<Rightarrow> ''undefined''
                                            | e # es \<Rightarrow> message e)),
                          riskLevel = HIGH\<rparr>
                else Inr \<lparr>allowed = True, reason = None, riskLevel = LOW\<rparr>))"

definition validateToolCall :: "SecurityConfig \<Rightarrow> jsvalue \<Rightarrow> error + SecurityResult" where
  "validateToolCall cfg ps =
     (let name = getProp ps ''name''; args = getProp ps ''arguments''
      in if \<not> truthy name
         then Inr \<lparr>allowed = False, reason = Some ''Tool name is required'', riskLevel = MEDIUM\<rparr>
         else if name = JString ''run_shortcut'' then validateRunShortcut cfg args
         else if name = JString ''list_shortcuts'' \<or> name = JString ''get_shortcut_info''
         then Inr \<lparr>allowed = True, reason = None, riskLevel = LOW\<rparr>
         else Inr \<lparr>allowed = False, reason = Some (''Unknown tool: '' @ toStringJS name),
                   riskLevel = MEDIUM\<rparr>)"

definition validateMethod :: "SecurityConfig \<Rightarrow> string \<Rightarrow> jsvalue \<Rightarrow> error + SecurityResult" where
  "validateMethod cfg m ps =
     (if m = ''tools/call'' then validateToolCall cfg ps
      else if m = ''tools/list'' then Inr \<lparr>allowed = True, reason = None, riskLevel = LOW\<rparr>
      else Inr \<lparr>allowed = False, reason = Some (''Unknown method: '' @ m), riskLevel = MEDIUM\<rparr>)"

definition validateRequest ::
  "SecurityConfig \<Rightarrow> int \<Rightarrow> RateLimitTracker \<Rightarrow> MCPRequest \<Rightarrow> SecurityResult \<times> RateLimitTracker" where
  \<comment> \<open>the clock is read by \<open>checkRateLimit\<close>; an error thrown below is caught here\<close>
  "validateRequest cfg now tracker request =
     (if method request = [] \<or> \<not> truthy (params request)
      then (\<lparr>allowed = False, reason = Some ''Invalid request format'', riskLevel = MEDIUM\<rparr>,
            tracker)
      else
        (let (rateLimitResult, tracker') =
               (if enableRateLimit cfg then checkRateLimit cfg now tracker ''default''
                else (\<lparr>allowed = True, reason = None, riskLevel = LOW\<rparr>, tracker))
         in if \<not> allowed rateLimitResult then (rateLimitResult, tracker')
            else (case validateMethod cfg (method request) (params request) of
                    Inl e \<Rightarrow>
                      (\<lparr>allowed = False, reason = Some ''Security validation failed'',
                        riskLevel = HIGH\<rparr>, tracker')
                  | Inr methodResult \<Rightarrow>
                      if \<not> allowed methodResult then (methodResult, tracker')
                      else (\<lparr>allowed = True, reason = None, riskLevel = LOW\<rparr>, tracker'))))"

section \<open>Shortcut Manager\<close>

datatype ShortcutCategory = PRODUCTIVITY | COMMUNICATION | MEDIA | UTILITIES | SYSTEM | CUSTOM

fun categoryValue :: "ShortcutCategory \<Rightarrow> string" where
  "categoryValue PRODUCTIVITY = ''productivity''"
| "categoryValue COMMUNICATION = ''communication''"
| "categoryValue MEDIA = ''media''"
| "categoryValue UTILITIES = ''utilities''"
| "categoryValue SYSTEM = ''system''"
| "categoryValue CUSTOM = ''custom''"

text \<open>
  Of a \<open>Shortcut\<close> the fields that the manager reads are kept (the input and output
  types, the icon and the modification date are constants that nothing reads); of the
  configuration, the fields that the manager reads.
\<close>

record Shortcut =
  name :: string
  description :: "string option"
  category :: ShortcutCategory

record ShortcutInfo = Shortcut +
  actionCount :: int
  info_size :: int
  info_isSystemShortcut :: bool

record ShortcutFilter =
  filterCategory :: "string option"
  filterSearch :: "string option"
  filterLimit :: "int option"

record ShortcutConfig =
  maxExecutionTime :: int
  defaultTimeout :: int
  cacheTimeout :: int
  enableCache :: bool

record 'a CacheEntry =
  data :: 'a
  timestamp :: int
  ttl :: int

record ManagerState =
  shortcutsCache :: "string \<rightharpoonup> Shortcut list CacheEntry"
  infoCache :: "string \<rightharpoonup> ShortcutInfo CacheEntry"
  hits :: nat
  misses :: nat

text \<open>An external command either ends with its two output streams or fails.\<close>

datatype CommandResult = Stdout string string | CommandFailed string

text \<open>What \<open>listShortcuts\<close> reads from outside: the clock at the expiry check, the outcome
  of the command \<open>shortcuts list\<close>, and the clock when the listing is stored.\<close>

record ListEnv =
  checkNow :: int
  listCommand :: CommandResult
  storeNow :: int

record InfoEnv =
  infoCheckNow :: int
  listEnv :: ListEnv
  infoStoreNow :: int

definition categorizeShortcut :: "string \<Rightarrow> ShortcutCategory" where
  "categorizeShortcut nm =
     (let lowerName = toLowerCase nm
      in if includesStr lowerName ''email'' \<or> includesStr lowerName ''message''
            \<or> includesStr lowerName ''call'' then COMMUNICATION
         else if includesStr lowerName ''photo'' \<or> includesStr lowerName ''video''
            \<or> includesStr lowerName ''music'' then MEDIA
         else if includesStr lowerName ''note'' \<or> includesStr lowerName ''task''
            \<or> includesStr lowerName ''calendar'' then PRODUCTIVITY
         else if includesStr lowerName ''system'' \<or> includesStr lowerName ''setting'' then SYSTEM
         else UTILITIES)"

definition discoverShortcuts :: "CommandResult \<Rightarrow> error + Shortcut list" where
  "discoverShortcuts cmd =
     (case cmd of
        CommandFailed m \<Rightarrow> Inl (ExecutionError ''Failed to list shortcuts'')
      | Stdout out err \<Rightarrow>
          (let lines = filter (\<lambda>line. trim line \<noteq> []) (splitOn (CHR 0x0A) (trim out))
           in Inr (map (\<lambda>line. \<lparr>name = trim line,
                                   description = Some (''macOS shortcut: '' @ trim line),
                                   category = categorizeShortcut (trim line)\<rparr>) lines)))"

definition applyFilter :: "Shortcut list \<Rightarrow> ShortcutFilter option \<Rightarrow> Shortcut list" where
  "applyFilter shortcuts flt =
     (case flt of
        None \<Rightarrow> shortcuts
      | Some f \<Rightarrow>
          (let filtered1 =
                 (case filterCategory f of
                    None \<Rightarrow> shortcuts
                  | Some c \<Rightarrow> if c = [] then shortcuts
                             else filter (\<lambda>s. categoryValue (category s) = c) shortcuts);
               filtered2 =
                 (case filterSearch f of
                    None \<Rightarrow> filtered1
                  | Some q \<Rightarrow> if q = [] then filtered1
                             else (let searchLower = toLowerCase q
                                   in filter (\<lambda>s. includesStr (toLowerCase (name s)) searchLower
                                         \<or> (case description s of
                                               None \<Rightarrow> False
                                             | Some d \<Rightarrow> d \<noteq> [] \<and> includesStr (toLowerCase d) searchLower))
                                        filtered1))
           in (case filterLimit f of
                 None \<Rightarrow> filtered2
               | Some l \<Rightarrow> if l \<noteq> 0 \<and> l > 0 then take (nat l) filtered2 else filtered2)))"

definition getCacheKey :: "string \<Rightarrow> ShortcutFilter option \<Rightarrow> string" where
  "getCacheKey type flt =
     (case flt of
        None \<Rightarrow> type
      | Some f \<Rightarrow>
          joinWith ''|''
            ([type]
             @ (case filterCategory f of None \<Rightarrow> [] | Some c \<Rightarrow> if c = [] then [] else [''cat:'' @ c])
             @ (case filterSearch f of None \<Rightarrow> [] | Some q \<Rightarrow> if q = [] then [] else [''search:'' @ q])
             @ (case filterLimit f of None \<Rightarrow> [] | Some l \<Rightarrow> if l = 0 then [] else [''limit:'' @ showInt l])))"

definition isCacheExpired :: "int \<Rightarrow> 'a CacheEntry \<Rightarrow> bool" where
  \<comment> \<open>the first argument is \<open>Date.now()\<close>\<close>
  "isCacheExpired now entry = (now - timestamp entry > ttl entry)"

definition listShortcuts ::
  "ShortcutConfig \<Rightarrow> ListEnv \<Rightarrow> ManagerState \<Rightarrow> ShortcutFilter option
     \<Rightarrow> (error + Shortcut list) \<times> ManagerState" where
  "listShortcuts cfg env st flt =
     (let cacheKey = getCacheKey ''shortcuts'' flt;
          cached = (if enableCache cfg then shortcutsCache st cacheKey else None)
      in case (case cached of
                 None \<Rightarrow> None
               | Some entry \<Rightarrow> if \<not> isCacheExpired (checkNow env) entry then Some entry else None) of
           Some entry \<Rightarrow> (Inr (applyFilter (data entry) flt), st\<lparr>hits := hits st + 1\<rparr>)
         | None \<Rightarrow>
             (let st1 = st\<lparr>misses := misses st + 1\<rparr>
              in case discoverShortcuts (listCommand env) of
                   Inl e \<Rightarrow> (Inl e, st1)
                 | Inr shortcuts \<Rightarrow>
                     (Inr (applyFilter shortcuts flt),
                      if enableCache cfg
                      then st1\<lparr>shortcutsCache := (shortcutsCache st1)
                             (cacheKey \<mapsto> \<lparr>data = shortcuts, timestamp = storeNow env,
                                          ttl = cacheTimeout cfg\<rparr>)\<rparr>
                      else st1)))"

definition getDetailedShortcutInfo :: "Shortcut \<Rightarrow> ShortcutInfo" where
  \<comment> \<open>\<open>{ ...shortcut, ...detailedInfo }\<close>\<close>
  "getDetailedShortcutInfo s =
     \<lparr>name = name s, description = description s, category = category s,
      actionCount = 1, info_size = 1024, info_isSystemShortcut = False\<rparr>"

definition getShortcutInfo ::
  "ShortcutConfig \<Rightarrow> InfoEnv \<Rightarrow> ManagerState \<Rightarrow> jsvalue \<Rightarrow> ShortcutInfo option \<times> ManagerState" where
  \<comment> \<open>the name has the type \<open>any\<close> at run time; an error of the listing is caught and
      answered by \<open>null\<close>\<close>
  "getShortcutInfo cfg env st nm =
     (let cacheKey = ''info_'' @ toStringJS nm;
          cached = (if enableCache cfg then infoCache st cacheKey else None)
      in case (case cached of
                 None \<Rightarrow> None
               | Some entry \<Rightarrow> if \<not> isCacheExpired (infoCheckNow env) entry then Some entry else None) of
           Some entry \<Rightarrow> (Some (data entry), st\<lparr>hits := hits st + 1\<rparr>)
         | None \<Rightarrow>
             (let st1 = st\<lparr>misses := misses st + 1\<rparr>;
                  (listed, st2) = listShortcuts cfg (listEnv env) st1 None
              in case listed of
                   Inl e \<Rightarrow> (None, st2)
                 | Inr shortcuts \<Rightarrow>
                     (case find (\<lambda>s. JString (name s) = nm) shortcuts of
                        None \<Rightarrow> (None, st2)
                      | Some shortcut \<Rightarrow>
                          (let info = getDetailedShortcutInfo shortcut
                           in (Some info,
                               if enableCache cfg
                               then st2\<lparr>infoCache := (infoCache st2)
                                      (cacheKey \<mapsto> \<lparr>data = info, timestamp = infoStoreNow env,
                                                   ttl = cacheTimeout cfg\<rparr>)\<rparr>
                               else st2)))))"

subsection \<open>Execution\<close>

record ExecutionRequest =
  req_name :: jsvalue
  req_input :: jsvalue
  req_timeout :: jsvalue

record ExecutionMetadata =
  shortcutName :: jsvalue
  startTime :: int
  endTime :: int
  inputSize :: int
  outputSize :: int
  warningsCount :: int
  errorsCount :: int

record ExecutionResult =
  success :: bool
  "output" :: "jsvalue option"
  error :: "string option"
  executionTime :: int
  logs :: "string list"
  metadata :: ExecutionMetadata

text \<open>
  \<open>executeWithTimeout\<close> starts the command and a timer, and the promise it returns is
  settled by the first of three events: the command ends, the command fails, the timer
  fires. Which event comes first is decided outside the program; it is an input here.
\<close>

datatype Race = Resolved string string | Rejected string | TimerFirst

record ExecEnv =
  startNow :: int
  infoEnv :: InfoEnv
  invoke :: "string \<Rightarrow> Race"
  jsonParse :: "string \<Rightarrow> jsvalue option"
  endNow :: int
  endDate :: int

definition escapeQuotes :: "string \<Rightarrow> string" where
  \<comment> \<open>\<open>s.replace(/"/g, '\\"')\<close>\<close>
  "escapeQuotes s = concat (map (\<lambda>c. if c = CHR 0x22 then [CHR 0x5C, CHR 0x22] else [c]) s)"

definition prepareInput :: "jsvalue \<Rightarrow> error + string" where
  "prepareInput input =
     (case input of
        JString s \<Rightarrow> Inr (escapeQuotes s)
      | _ \<Rightarrow> (case stringify input of
                 Inl e \<Rightarrow> Inl e
               | Inr None \<Rightarrow> Inl (TypeError ''Cannot read properties of undefined (reading replace)'')
               | Inr (Some t) \<Rightarrow> Inr (escapeQuotes t)))"

definition parseOutput :: "(string \<Rightarrow> jsvalue option) \<Rightarrow> string \<Rightarrow> jsvalue" where
  \<comment> \<open>\<open>JSON.parse\<close> is the first argument; \<open>None\<close> is its \<open>SyntaxError\<close>\<close>
  "parseOutput parse out = (case parse out of Some v \<Rightarrow> v | None \<Rightarrow> JString (trim out))"

definition executeWithTimeout :: "Race \<Rightarrow> jsvalue \<Rightarrow> error + string" where
  "executeWithTimeout race timeoutMs =
     (case race of
        TimerFirst \<Rightarrow> Inl (TimeoutError (''Execution timeout after '' @ toStringJS timeoutMs @ ''ms''))
      | Resolved out err \<Rightarrow> Inr out
      | Rejected m \<Rightarrow> Inl (ExecutionError (''Command failed: '' @ m)))"

definition stringifiedLength :: "jsvalue \<Rightarrow> error + int" where
  \<comment> \<open>\<open>input ? JSON.stringify(input).length : 0\<close>\<close>
  "stringifiedLength input =
     (if truthy input
      then (case stringify input of
              Inl e \<Rightarrow> Inl e
            | Inr None \<Rightarrow> Inl (TypeError ''Cannot read properties of undefined (reading length)'')
            | Inr (Some t) \<Rightarrow> Inr (int (length t)))
      else Inr 0)"

definition buildCommand :: "ExecutionRequest \<Rightarrow> error + string" where
  "buildCommand request =
     (let command = ''shortcuts run \"'' @ toStringJS (req_name request) @ ''\"''
      in if req_input request \<noteq> JUndefined \<and> req_input request \<noteq> JNull
         then (case prepareInput (req_input request) of
                 Inl e \<Rightarrow> Inl e
               | Inr inputStr \<Rightarrow> Inr (command @ '' -i \"'' @ inputStr @ ''\"''))
         else Inr command)"

definition executeShortcut ::
  "ShortcutConfig \<Rightarrow> ExecEnv \<Rightarrow> ManagerState \<Rightarrow> ExecutionRequest
     \<Rightarrow> (error + ExecutionResult) \<times> ManagerState" where
  \<comment> \<open>\<open>attempt\<close> is the \<open>try\<close> block; an error thrown inside the \<open>catch\<close> block leaves the
      function\<close>
  "executeShortcut cfg env st request =
     (let nm = req_name request;
          input = req_input request;
          timeout = (if req_timeout request = JUndefined then JNumber (defaultTimeout cfg)
                     else req_timeout request);
          (info, st') = getShortcutInfo cfg (infoEnv env) st nm;
          attempt =
            (case info of
               None \<Rightarrow> Inl (ShortcutNotFoundError (''Shortcut \"'' @ toStringJS nm @ ''\" not found''))
             | Some i \<Rightarrow>
                 (case buildCommand request of
                    Inl e \<Rightarrow> Inl e
                  | Inr command \<Rightarrow>
                      (case executeWithTimeout (invoke env command) timeout of
                         Inl e \<Rightarrow> Inl e
                       | Inr result \<Rightarrow>
                           (case stringifiedLength input of
                              Inl e \<Rightarrow> Inl e
                            | Inr n \<Rightarrow>
                                Inr \<lparr>success = True,
                                     output = Some (parseOutput (jsonParse env) result),
                                     error = None,
                                     executionTime = endNow env - startNow env,
                                     logs = [],
                                     metadata = \<lparr>shortcutName = nm, startTime = startNow env,
                                                 endTime = endDate env, inputSize = n,
                                                 outputSize = int (length result),
                                                 warningsCount = 0, errorsCount = 0\<rparr>\<rparr>))))
      in case attempt of
           Inr r \<Rightarrow> (Inr r, st')
         | Inl e \<Rightarrow>
             (case stringifiedLength input of
                Inl e' \<Rightarrow> (Inl e', st')
              | Inr n \<Rightarrow>
                  (Inr \<lparr>success = False,
                        output = None,
                        error = Some (errorMessage e),
                        executionTime = endNow env - startNow env,
                        logs = [],
                        metadata = \<lparr>shortcutName = nm, startTime = startNow env,
                                    endTime = endDate env, inputSize = n, outputSize = 0,
                                    warningsCount = 0, errorsCount = 1\<rparr>\<rparr>, st')))"

section \<open>The server\<close>

record Configuration =
  security :: SecurityConfig
  shortcuts :: ShortcutConfig

record ServerState =
  rateLimitTracker :: RateLimitTracker
  auditLog :: "AuditEntry list"
  manager :: ManagerState

text \<open>
  The answer to a tool call: the text of a successful answer is not modelled. The handlers
  of \<open>list_shortcuts\<close> and \<open>get_shortcut_info\<close> use the Shortcut Manager alone; their answer
  and their effect on its state are taken from the environment (\<open>otherRoute\<close>).
\<close>

datatype CallToolResult = ToolOutput | ToolError string

record HandlerEnv =
  validateNow :: int
  execEnv :: ExecEnv
  logEnv :: LogEnv
  otherRoute :: "string \<Rightarrow> jsvalue \<Rightarrow> ManagerState \<Rightarrow> CallToolResult \<times> ManagerState"

text \<open>
  The outcome of a tool call records, next to the answer, the \<open>ExecutionResult\<close> that
  \<open>executeShortcut\<close> returned when the handler called it.
\<close>

record HandlerOutcome =
  response :: CallToolResult
  execution :: "ExecutionResult option"

definition caught :: "string \<Rightarrow> CallToolResult" where
  \<comment> \<open>the \<open>catch\<close> block of the request handler\<close>
  "caught m = ToolError (''Error: '' @ m)"

definition handleRunShortcut ::
  "Configuration \<Rightarrow> HandlerEnv \<Rightarrow> ServerState \<Rightarrow> jsvalue \<Rightarrow> HandlerOutcome \<times> ServerState" where
  "handleRunShortcut cfg env st args =
     (let nm = getProp args ''name''
      in if \<not> truthy nm
         then (\<lparr>response = caught ''Shortcut name is required'', execution = None\<rparr>, st)
         else
           (case isShortcutAllowedAny (security cfg) nm of
              Inl e \<Rightarrow> (\<lparr>response = caught (errorMessage e), execution = None\<rparr>, st)
            | Inr ok \<Rightarrow>
                if \<not> ok
                then (\<lparr>response = caught (''Shortcut \"'' @ toStringJS nm
                                           @ ''\" is not allowed by security policy''),
                       execution = None\<rparr>, st)
                else
                  (let (res, m') =
                         executeShortcut (shortcuts cfg) (execEnv env) (manager st)
                           \<lparr>req_name = nm,
                            req_input = getProp args ''input'',
                            req_timeout = (if truthy (getProp args ''timeout'')
                                           then getProp args ''timeout''
                                           else JNumber (defaultTimeout (shortcuts cfg)))\<rparr>;
                       st' = st\<lparr>manager := m'\<rparr>
                   in case res of
                        Inl e \<Rightarrow> (\<lparr>response = caught (errorMessage e), execution = None\<rparr>, st')
                      | Inr result \<Rightarrow>
                          if \<not> success result
                          then (\<lparr>response = caught
                                   (case error result of
                                      None \<Rightarrow> ''Shortcut execution failed''
                                    | Some m \<Rightarrow> if m = [] then ''Shortcut execution failed'' else m),
                                 execution = Some result\<rparr>, st')
                          else
                            (case nm of
                               JString shortcutName' \<Rightarrow>
                                 (\<lparr>response = ToolOutput, execution = Some result\<rparr>,
                                  st'\<lparr>auditLog :=
                                        logExecution (security cfg) (logEnv env) (auditLog st')
                                          shortcutName'
                                          \<lparr>det_input = getProp args ''input'',
                                           det_executionTime = executionTime result,
                                           det_success = success result,
                                           det_error = None\<rparr>\<rparr>)
                             | _ \<Rightarrow>
                                 (\<lparr>response = caught ''shortcutName.toLowerCase is not a function'',
                                   execution = Some result\<rparr>, st')))))"

definition handleCallTool ::
  "Configuration \<Rightarrow> HandlerEnv \<Rightarrow> ServerState \<Rightarrow> jsvalue \<Rightarrow> HandlerOutcome \<times> ServerState" where
  \<comment> \<open>the handler of \<open>CallToolRequestSchema\<close>, on the parameters of a request whose method
      is \<open>tools/call\<close>; the names of the other tools of the \<open>switch\<close> are rejected by
      \<open>validateToolCall\<close> before, so the last branch stands for them and for \<open>default\<close>\<close>
  "handleCallTool cfg env st ps =
     (let nm = getProp ps ''name'';
          args = getProp ps ''arguments'';
          (securityResult, tracker') =
             validateRequest (security cfg) (validateNow env) (rateLimitTracker st)
               \<lparr>method = ''tools/call'', params = ps\<rparr>;
          st1 = st\<lparr>rateLimitTracker := tracker'\<rparr>
      in if \<not> allowed securityResult
         then (\<lparr>response = caught (''Security check failed: ''
                                  @ (case reason securityResult of None \<Rightarrow> ''undefined'' | Some r \<Rightarrow> r)),
                execution = None\<rparr>, st1)
         else if nm = JString ''run_shortcut'' then handleRunShortcut cfg env st1 args
         else if nm = JString ''list_shortcuts'' \<or> nm = JString ''get_shortcut_info''
         then (let (r, m') = otherRoute env (toStringJS nm) args (manager st1)
               in (\<lparr>response = r, execution = None\<rparr>, st1\<lparr>manager := m'\<rparr>))
         else (\<lparr>response = caught (''Unknown tool: '' @ toStringJS nm), execution = None\<rparr>, st1))"


text \<open>The default configuration of the program (\<open>DEFAULT_CONFIG\<close>).\<close>

definition defaultSecurity :: SecurityConfig where
  "defaultSecurity =
     \<lparr>requireConfirmation = False, logExecutions = True, allowSystemShortcuts = False,
      sandboxMode = False, maxInputSize = 1048576, enableRateLimit = True,
      allowedPrefixes = [], blockedShortcuts = [],
      rateLimit = \<lparr>windowMs = 60000, maxRequests = 100\<rparr>\<rparr>"

definition defaultShortcuts :: ShortcutConfig where
  "defaultShortcuts =
     \<lparr>maxExecutionTime = 30000, defaultTimeout = 10000, cacheTimeout = 300000,
      enableCache = True\<rparr>"

text \<open>The parameters of a call of the tool \<open>run_shortcut\<close>.\<close>

definition runShortcutParams :: "jsvalue \<Rightarrow> jsvalue \<Rightarrow> jsvalue" where
  "runShortcutParams nm input =
     JObject [(''name'', JString ''run_shortcut''),
              (''arguments'', JObject [(''name'', nm), (''input'', input)])]"

text \<open>The state of a Shortcut Manager that has just been constructed.\<close>

definition newManager :: ManagerState where
  "newManager = \<lparr>shortcutsCache = Map.empty, infoCache = Map.empty, hits = 0, misses = 0\<rparr>"

text \<open>
  An example: the catalogue holds the shortcut \<open>Weather Report\<close>, and a request runs it on
  the input \<open>San Francisco\<close> with a timeout of 1000 ms. The outcome of the race between the
  command and the timer is the argument.
\<close>

definition exampleExecEnv :: "Race \<Rightarrow> ExecEnv" where
  "exampleExecEnv race =
     \<lparr>startNow = 5000,
      infoEnv = \<lparr>infoCheckNow = 5000,
                 listEnv = \<lparr>checkNow = 5000,
                            listCommand = Stdout ''Weather Report\<newline>'' [],
                            storeNow = 5001\<rparr>,
                 infoStoreNow = 5002\<rparr>,
      invoke = (\<lambda>command. race),
      jsonParse = (\<lambda>text. None),
      endNow = 6003,
      endDate = 6003\<rparr>"

definition weatherRequest :: ExecutionRequest where
  "weatherRequest =
     \<lparr>req_name = JString ''Weather Report'', req_input = JString ''San Francisco'',
      req_timeout = JNumber 1000\<rparr>"

text \<open>The example as a tool call on a server that has just started.\<close>

definition exampleConfig :: Configuration where
  "exampleConfig = \<lparr>security = defaultSecurity, shortcuts = defaultShortcuts\<rparr>"

definition exampleHandlerEnv :: "Race \<Rightarrow> HandlerEnv" where
  "exampleHandlerEnv race =
     \<lparr>validateNow = 5000,
      execEnv = exampleExecEnv race,
      logEnv = \<lparr>idNow = 6004, idRandom = ''k3j9x0q1z'', entryNow = 6004\<rparr>,
      otherRoute = (\<lambda>tool args m. (ToolOutput, m))\<rparr>"

definition newServer :: ServerState where
  "newServer = \<lparr>rateLimitTracker = Map.empty, auditLog = [], manager = newManager\<rparr>"

text \<open>
  Notions for the proofs about \<open>filterOutput\<close>: the four key words; a text that is empty
  or starts with a space; and a text in which every match of the expression of a key word,
  at any position, is already the replacement followed by the rest.
\<close>

definition keyWords :: "string list" where
  "keyWords = [''password'', ''token'', ''key'', ''secret'']"

definition spaceHead :: "string \<Rightarrow> bool" where
  "spaceHead t = (case t of [] \<Rightarrow> True | c # cs \<Rightarrow> isSpace c)"

definition redacted :: "string \<Rightarrow> string \<Rightarrow> bool" where
  "redacted kw s =
     (\<forall>t. suffix t s \<longrightarrow> (\<forall>r. matchKeyValue kw t = Some r \<longrightarrow> t = kw @ '': [REDACTED]'' @ r))"

section \<open>Properties\<close>

subsection \<open>Rate limiter\<close>








subsection \<open>Audit log\<close>

lemma sliceFrom_neg:
  "0 < k \<Longrightarrow> sliceFrom (- int k) xs = drop (length xs - k) xs"
  by (auto simp: sliceFrom_def nat_diff_distrib' max_def)

lemma sliceFrom_neg_twice:
  assumes "0 < k"
  shows "sliceFrom (- int k) (sliceFrom (- int k) xs @ ys) = sliceFrom (- int k) (xs @ ys)"
proof (cases "length xs \<le> k")
  case True
  then show ?thesis using assms by (simp add: sliceFrom_neg)
next
  case False
  then have "length xs + length ys - (length xs - k + k) + (length xs - k)
               = length xs + length ys - k"
    by simp
  then show ?thesis using assms False by (simp add: sliceFrom_neg)
qed

lemma logExecution_slice:
  "logExecution cfg env entries n d =
     sliceFrom (- 1000) (entries @ [newAuditEntry cfg env n d])"
  using sliceFrom_neg[of 1000 "entries @ [newAuditEntry cfg env n d]"]
  by (simp add: logExecution_def Let_def)

lemma logAll_slice:
  "length entries \<le> 1000 \<Longrightarrow>
   logAll cfg entries calls =
     sliceFrom (- 1000)
       (entries @ map (\<lambda>c. newAuditEntry cfg (fst c) (fst (snd c)) (snd (snd c))) calls)"
proof (induction calls arbitrary: entries)
  case Nil
  then show ?case using sliceFrom_neg[of 1000 entries] by simp
next
  case (Cons c calls)
  let ?e = "newAuditEntry cfg (fst c) (fst (snd c)) (snd (snd c))"
  let ?es = "map (\<lambda>c. newAuditEntry cfg (fst c) (fst (snd c)) (snd (snd c))) calls"
  have len: "length (logExecution cfg (fst c) entries (fst (snd c)) (snd (snd c))) \<le> 1000"
    using sliceFrom_neg[of 1000 "entries @ [?e]"] by (simp add: logExecution_slice)
  have "logAll cfg entries (c # calls) =
          sliceFrom (- 1000) (sliceFrom (- 1000) (entries @ [?e]) @ ?es)"
    using Cons.IH[OF len] by (simp add: logExecution_slice)
  also have "\<dots> = sliceFrom (- 1000) ((entries @ [?e]) @ ?es)"
    using sliceFrom_neg_twice[of 1000 "entries @ [?e]" ?es] by simp
  finally show ?case by simp
qed

text \<open>
  Claim C4. After every call of \<open>logExecution\<close> the audit log holds at most 1000 entries,
  whatever it held before; \<open>clearAuditLog\<close> and any sequence of calls keep the bound. The
  eviction is first in, first out: 1001 calls on the empty log leave the entries of the
  calls 2 to 1001, in their order, so the log has exactly 1000 entries, the entry of the
  first call is gone and the entry of call 1001 is the last one.
\<close>

theorem audit_log_bound:
  "length (logExecution cfg env entries n d) \<le> 1000
   \<and> length (clearAuditLog entries) \<le> 1000
   \<and> (length entries \<le> 1000 \<longrightarrow> length (logAll cfg entries calls) \<le> 1000)
   \<and> (length calls = 1001 \<longrightarrow>
        logAll cfg [] calls
          = tl (map (\<lambda>c. newAuditEntry cfg (fst c) (fst (snd c)) (snd (snd c))) calls)
        \<and> length (logAll cfg [] calls) = 1000
        \<and> logAll cfg [] calls ! 0 = newAuditEntry cfg (fst (calls ! 1)) (fst (snd (calls ! 1))) (snd (snd (calls ! 1)))
        \<and> last (logAll cfg [] calls)
            = newAuditEntry cfg (fst (calls ! 1000)) (fst (snd (calls ! 1000))) (snd (snd (calls ! 1000))))"
proof -
  let ?entry = "\<lambda>c. newAuditEntry cfg (fst c) (fst (snd c)) (snd (snd c))"
  have one: "length (logExecution cfg env entries n d) \<le> 1000"
    using sliceFrom_neg[of 1000 "entries @ [newAuditEntry cfg env n d]"]
    by (simp add: logExecution_slice)
  have many: "length (logAll cfg entries calls) \<le> 1000" if "length entries \<le> 1000"
    using logAll_slice[OF that, of cfg calls]
      sliceFrom_neg[of 1000 "entries @ map ?entry calls"] by simp
  have fifo: "logAll cfg [] calls = tl (map ?entry calls)" if "length calls = 1001"
    using logAll_slice[of "[]" cfg calls] sliceFrom_neg[of 1000 "map ?entry calls"] that
    by (simp add: drop_Suc)
  have len: "length (logAll cfg [] calls) = 1000" if "length calls = 1001"
    using fifo[OF that] that by simp
  have first: "logAll cfg [] calls ! 0 = ?entry (calls ! 1)" if "length calls = 1001"
    using fifo[OF that] that by (simp add: nth_tl)
  have lst: "last (logAll cfg [] calls) = ?entry (calls ! 1000)" if "length calls = 1001"
  proof -
    have "tl (map ?entry calls) \<noteq> []"
      using that by (cases calls; cases "tl calls") auto
    then have "last (tl (map ?entry calls)) = last (map ?entry calls)"
      by (simp add: last_tl)
    also have "\<dots> = ?entry (last calls)" using that by (intro last_map) auto
    also have "last calls = calls ! 1000"
    proof -
      have "calls \<noteq> []" using that by auto
      then have "last calls = calls ! (length calls - 1)" by (rule last_conv_nth)
      then show ?thesis using that by simp
    qed
    finally show ?thesis using fifo[OF that] by simp
  qed
  show ?thesis using one many fifo len first lst by (simp add: clearAuditLog_def)
qed

theorem audit_log_bound_witness:
  "length (logAll defaultSecurity []
      (map (\<lambda>i. (\<lparr>idNow = int i, idRandom = ''k3j9x0q1z'', entryNow = int i\<rparr>, ''Weather Report'',
                  \<lparr>det_input = JString ''San Francisco'', det_executionTime = 12,
                   det_success = True, det_error = None\<rparr>)) [0 ..< 1001])) = 1000
   \<and> entry_timestamp (logAll defaultSecurity []
      (map (\<lambda>i. (\<lparr>idNow = int i, idRandom = ''k3j9x0q1z'', entryNow = int i\<rparr>, ''Weather Report'',
                  \<lparr>det_input = JString ''San Francisco'', det_executionTime = 12,
                   det_success = True, det_error = None\<rparr>)) [0 ..< 1001]) ! 0) = 1
   \<and> entry_timestamp (last (logAll defaultSecurity []
      (map (\<lambda>i. (\<lparr>idNow = int i, idRandom = ''k3j9x0q1z'', entryNow = int i\<rparr>, ''Weather Report'',
                  \<lparr>det_input = JString ''San Francisco'', det_executionTime = 12,
                   det_success = True, det_error = None\<rparr>)) [0 ..< 1001]))) = 1000"
  (is "length (logAll _ _ ?calls) = _ \<and> _")
proof -
  have len: "length ?calls = 1001" and short: "length ([] :: AuditEntry list) \<le> 1000"
    by simp_all
  have nth1: "fst (?calls ! 1) = \<lparr>idNow = 1, idRandom = ''k3j9x0q1z'', entryNow = 1\<rparr>"
    and nth1000: "fst (?calls ! 1000) = \<lparr>idNow = 1000, idRandom = ''k3j9x0q1z'', entryNow = 1000\<rparr>"
    by simp_all
  from audit_log_bound [of defaultSecurity "\<lparr>idNow = 0, idRandom = [], entryNow = 0\<rparr>" "[]" "[]"
      "\<lparr>det_input = JNull, det_executionTime = 0, det_success = True, det_error = None\<rparr>" ?calls]
    len short
  have "length (logAll defaultSecurity [] ?calls) = 1000"
    and "logAll defaultSecurity [] ?calls ! 0
           = newAuditEntry defaultSecurity (fst (?calls ! 1)) (fst (snd (?calls ! 1))) (snd (snd (?calls ! 1)))"
    and "last (logAll defaultSecurity [] ?calls)
           = newAuditEntry defaultSecurity (fst (?calls ! 1000)) (fst (snd (?calls ! 1000))) (snd (snd (?calls ! 1000)))"
    by blast+
  then show ?thesis
    by (simp only: nth1 nth1000 newAuditEntry_def AuditEntry.simps LogEnv.simps simp_thms)
qed

subsection \<open>Numbers in messages\<close>

lemma showNat_numeral:
  "showNat (numeral k) =
     (if (numeral k :: nat) < 10 then [digitChar (numeral k)]
      else showNat (numeral k div 10) @ [digitChar (numeral k mod 10)])"
  by (rule showNat.simps)

lemma showNat_small: "showNat 0 = ''0''" "showNat 1 = ''1''" "showNat (Suc 0) = ''1''"
  by (simp_all add: showNat.simps[of 0] showNat.simps[of 1] showNat.simps[of "Suc 0"] digitChar_def)

lemmas showInt_eval = showInt_def showNat_numeral showNat_small digitChar_def

subsection \<open>Allow and block lists\<close>

lemma startsWith_prefix: "startsWith s p = prefix p s"
  by (induction s p rule: startsWith.induct) auto

lemma includesStr_sublist: "includesStr s k = sublist k s"
  by (induction s) (auto simp: startsWith_prefix sublist_Cons_right)

lemma isSystemShortcut_iff:
  "isSystemShortcut nm = (\<exists>kw\<in>set systemKeywords. sublist kw (toLowerCase nm))"
  by (simp add: isSystemShortcut_def Let_def list_ex_iff includesStr_sublist)

lemma isShortcutAllowed_iff:
  "isShortcutAllowed cfg nm =
     (\<not> (nm \<in> set (blockedShortcuts cfg)
         \<or> (\<not> allowSystemShortcuts cfg \<and> (\<exists>kw\<in>set systemKeywords. sublist kw (toLowerCase nm)))
         \<or> (allowedPrefixes cfg \<noteq> [] \<and> (\<forall>p\<in>set (allowedPrefixes cfg). \<not> prefix p nm))))"
  by (auto simp: isShortcutAllowed_def Let_def isSystemShortcut_iff list_ex_iff
      startsWith_prefix)

lemma validateRunShortcut_string:
  assumes "getProp args ''name'' = JString nm" and "nm \<noteq> []"
  shows "validateRunShortcut cfg args =
     (if \<not> isShortcutAllowed cfg nm
      then Inr \<lparr>allowed = False, reason = Some (''Shortcut \"'' @ nm @ ''\" is not allowed''),
                riskLevel = HIGH\<rparr>
      else if getProp args ''input'' \<noteq> JUndefined \<and> \<not> valid (validateInput cfg (getProp args ''input''))
      then Inr \<lparr>allowed = False,
                reason = Some (''Input validation failed: ''
                               @ (case errors (validateInput cfg (getProp args ''input'')) of
                                    [] \<Rightarrow> ''undefined'' | e # es \<Rightarrow> message e)),
                riskLevel = HIGH\<rparr>
      else Inr \<lparr>allowed = True, reason = None, riskLevel = LOW\<rparr>)"
  using assms by (simp add: validateRunShortcut_def isShortcutAllowedAny_def)

lemma getProp_defined: "getProp v k \<noteq> JUndefined \<Longrightarrow> truthy v"
  by (cases v) auto

lemma validateRequest_run_shortcut:
  assumes "getProp ps ''name'' = JString ''run_shortcut''"
  shows "validateRequest cfg now tracker \<lparr>method = ''tools/call'', params = ps\<rparr> =
     (let limited = (if enableRateLimit cfg then checkRateLimit cfg now tracker ''default''
                     else (\<lparr>allowed = True, reason = None, riskLevel = LOW\<rparr>, tracker))
      in if \<not> allowed (fst limited) then limited
         else (case validateRunShortcut cfg (getProp ps ''arguments'') of
                 Inl e \<Rightarrow> (\<lparr>allowed = False, reason = Some ''Security validation failed'',
                            riskLevel = HIGH\<rparr>, snd limited)
               | Inr r \<Rightarrow> if \<not> allowed r then (r, snd limited)
                          else (\<lparr>allowed = True, reason = None, riskLevel = LOW\<rparr>, snd limited)))"
proof -
  have t: "truthy ps" using assms getProp_defined[of ps "''name''"] by simp
  show ?thesis
    using assms t
    by (simp add: validateRequest_def validateMethod_def validateToolCall_def Let_def
        split: prod.splits sum.splits)
qed


lemma validateRequest_not_allowed:
  assumes "getProp ps ''name'' = JString ''run_shortcut''"
    and "getProp (getProp ps ''arguments'') ''name'' = JString nm"
    and "nm \<noteq> []"
    and "\<not> isShortcutAllowed cfg nm"
  shows "fst (validateRequest cfg now tracker \<lparr>method = ''tools/call'', params = ps\<rparr>) =
     (if enableRateLimit cfg \<and> \<not> allowed (fst (checkRateLimit cfg now tracker ''default''))
      then fst (checkRateLimit cfg now tracker ''default'')
      else \<lparr>allowed = False, reason = Some (''Shortcut \"'' @ nm @ ''\" is not allowed''),
            riskLevel = HIGH\<rparr>)"
  using assms(3,4)
  by (simp add: validateRequest_run_shortcut[OF assms(1)]
      validateRunShortcut_string[OF assms(2,3)] Let_def)

text \<open>
  Claim C5, as amended. \<open>isShortcutAllowed\<close> answers \<open>False\<close> exactly when the name is on
  the block list, or system shortcuts are not allowed and the name in lower case contains one
  of the nine key words, or the list of allowed prefixes is not empty and none of them is a
  prefix of the name. In \<open>validateRequest\<close>, for a request that the rate limiter admits, each
  of these rejections carries the risk level \<open>HIGH\<close>: the prefix mismatch is not told apart
  from the other two.
\<close>

theorem shortcut_policy:
  "(isShortcutAllowed cfg nm \<longleftrightarrow>
      \<not> (nm \<in> set (blockedShortcuts cfg)
         \<or> (\<not> allowSystemShortcuts cfg \<and> (\<exists>kw\<in>set systemKeywords. sublist kw (toLowerCase nm)))
         \<or> (allowedPrefixes cfg \<noteq> [] \<and> (\<forall>p\<in>set (allowedPrefixes cfg). \<not> prefix p nm))))
   \<and> systemKeywords = [''system'', ''setting'', ''preference'', ''config'', ''admin'',
                         ''security'', ''password'', ''keychain'', ''permission'']
   \<and> (nm \<noteq> [] \<and> \<not> isShortcutAllowed cfg nm
        \<and> (enableRateLimit cfg \<longrightarrow> allowed (fst (checkRateLimit cfg now tracker ''default'')))
      \<longrightarrow> fst (validateRequest cfg now tracker
                 \<lparr>method = ''tools/call'', params = runShortcutParams (JString nm) input\<rparr>)
            = \<lparr>allowed = False, reason = Some (''Shortcut \"'' @ nm @ ''\" is not allowed''),
               riskLevel = HIGH\<rparr>)"
proof -
  have "fst (validateRequest cfg now tracker
                 \<lparr>method = ''tools/call'', params = runShortcutParams (JString nm) input\<rparr>)
            = \<lparr>allowed = False, reason = Some (''Shortcut \"'' @ nm @ ''\" is not allowed''),
               riskLevel = HIGH\<rparr>"
    if "nm \<noteq> []" "\<not> isShortcutAllowed cfg nm"
       "enableRateLimit cfg \<longrightarrow> allowed (fst (checkRateLimit cfg now tracker ''default''))"
    using validateRequest_not_allowed[of "runShortcutParams (JString nm) input" nm cfg now tracker] that
    by (auto simp: runShortcutParams_def)
  then show ?thesis
    using isShortcutAllowed_iff[of cfg nm] by (simp add: systemKeywords_def)
qed

theorem shortcut_policy_witness:
  "\<not> isShortcutAllowed defaultSecurity ''System Configuration''
   \<and> fst (validateRequest defaultSecurity 0 Map.empty
            \<lparr>method = ''tools/call'',
             params = runShortcutParams (JString ''System Configuration'') JUndefined\<rparr>)
       = \<lparr>allowed = False, reason = Some ''Shortcut \"System Configuration\" is not allowed'',
          riskLevel = HIGH\<rparr>"
proof -
  have sys: "sublist ''system'' (toLowerCase ''System Configuration'')"
  proof -
    have "includesStr (toLowerCase ''System Configuration'') ''system''" by code_simp
    then show ?thesis by (simp only: includesStr_sublist)
  qed
  have blocked: "\<not> isShortcutAllowed defaultSecurity ''System Configuration''"
    using shortcut_policy[of defaultSecurity "''System Configuration''" 0 Map.empty JUndefined] sys
    by (simp add: defaultSecurity_def systemKeywords_def)
  have adm: "enableRateLimit defaultSecurity \<longrightarrow>
      allowed (fst (checkRateLimit defaultSecurity 0 Map.empty ''default''))"
    by (simp add: defaultSecurity_def checkRateLimit_def)
  show ?thesis
    using shortcut_policy[of defaultSecurity "''System Configuration''" 0 Map.empty JUndefined] blocked adm
    by simp
qed

text \<open>
  The claim as stated gives the prefix mismatch the risk level \<open>MEDIUM\<close>. With the only
  allowed prefix \<open>Safe\<close>, the name \<open>Weather Report\<close> is rejected for its prefix alone, and
  the rejection carries \<open>HIGH\<close>.
\<close>

theorem prefix_mismatch_risk_counterexample:
  "isShortcutAllowed defaultSecurity ''Weather Report''
   \<and> \<not> isShortcutAllowed (defaultSecurity\<lparr>allowedPrefixes := [''Safe'']\<rparr>) ''Weather Report''
   \<and> fst (validateRequest (defaultSecurity\<lparr>allowedPrefixes := [''Safe'']\<rparr>) 0 Map.empty
            \<lparr>method = ''tools/call'',
             params = runShortcutParams (JString ''Weather Report'') JUndefined\<rparr>)
       = \<lparr>allowed = False, reason = Some ''Shortcut \"Weather Report\" is not allowed'',
          riskLevel = HIGH\<rparr>
   \<and> riskLevel (fst (validateRequest (defaultSecurity\<lparr>allowedPrefixes := [''Safe'']\<rparr>) 0 Map.empty
            \<lparr>method = ''tools/call'',
             params = runShortcutParams (JString ''Weather Report'') JUndefined\<rparr>)) \<noteq> MEDIUM"
  by code_simp

subsection \<open>Order of the checks\<close>

lemma checkRateLimit_denied:
  "\<not> allowed (fst (checkRateLimit cfg now tracker c)) \<Longrightarrow>
   checkRateLimit cfg now tracker c =
     (\<lparr>allowed = False,
       reason = Some (''Rate limit exceeded: '' @ showInt (maxRequests (rateLimit cfg))
                      @ '' requests per '' @ showInt (windowMs (rateLimit cfg)) @ ''ms''),
       riskLevel = MEDIUM\<rparr>, tracker)"
  by (simp add: checkRateLimit_def Let_def split: if_splits)

text \<open>
  Claim C6. A call of \<open>run_shortcut\<close> that reaches the two checks (the rate limiter admits
  it and it names its target), with a name that policy blocks and an input larger than the
  maximum, is rejected by \<open>validateRequest\<close> for the policy
  (\<open>Shortcut "..." is not allowed\<close>, \<open>HIGH\<close>) and not for the size of its input, although
  \<open>validateInput\<close> does not accept this input.
\<close>

theorem policy_before_input_size:
  assumes "nm \<noteq> []"
    and "\<not> isShortcutAllowed cfg nm"
    and "maxInputSize cfg < calculateInputSize input"
    and "enableRateLimit cfg \<longrightarrow> allowed (fst (checkRateLimit cfg now tracker ''default''))"
  shows "fst (validateRequest cfg now tracker
            \<lparr>method = ''tools/call'', params = runShortcutParams (JString nm) input\<rparr>)
         = \<lparr>allowed = False, reason = Some (''Shortcut \"'' @ nm @ ''\" is not allowed''),
            riskLevel = HIGH\<rparr>
    \<and> (\<forall>m. reason (fst (validateRequest cfg now tracker
            \<lparr>method = ''tools/call'', params = runShortcutParams (JString nm) input\<rparr>))
          \<noteq> Some (''Input validation failed: '' @ m))
    \<and> (truthy input \<and> maxInputSize cfg \<noteq> 0 \<longrightarrow> \<not> valid (validateInput cfg input))"
proof -
  let ?r = "fst (validateRequest cfg now tracker
            \<lparr>method = ''tools/call'', params = runShortcutParams (JString nm) input\<rparr>)"
  have eq: "?r = \<lparr>allowed = False, reason = Some (''Shortcut \"'' @ nm @ ''\" is not allowed''),
                  riskLevel = HIGH\<rparr>"
    using validateRequest_not_allowed[of "runShortcutParams (JString nm) input" nm cfg now tracker]
      assms(1,2,4)
    by (auto simp: runShortcutParams_def)
  have ne: "reason ?r \<noteq> Some (''Input validation failed: '' @ m)" for m
    unfolding eq by simp
  have large: "\<not> valid (validateInput cfg input)" if "truthy input" "maxInputSize cfg \<noteq> 0"
    using that assms(3) by (simp add: validateInput_def Let_def)
  show ?thesis
    using eq ne large by blast
qed

lemma byteLength_replicate_ascii:
  "(of_char c :: nat) < 128 \<Longrightarrow> byteLength (replicate n c) = int n"
  by (simp add: byteLength_def sum_list_replicate)

theorem policy_before_input_size_witness:
  "fst (validateRequest (defaultSecurity\<lparr>blockedShortcuts := [''Dangerous Shortcut''], maxInputSize := 1024\<rparr>)
          0 Map.empty
          \<lparr>method = ''tools/call'',
           params = runShortcutParams (JString ''Dangerous Shortcut'')
                      (JString (replicate 1025 (CHR ''a'')))\<rparr>)
     = \<lparr>allowed = False, reason = Some ''Shortcut \"Dangerous Shortcut\" is not allowed'',
        riskLevel = HIGH\<rparr>
   \<and> \<not> valid (validateInput
              (defaultSecurity\<lparr>blockedShortcuts := [''Dangerous Shortcut''], maxInputSize := 1024\<rparr>)
              (JString (replicate 1025 (CHR ''a''))))"
proof -
  let ?cfg = "defaultSecurity\<lparr>blockedShortcuts := [''Dangerous Shortcut''], maxInputSize := 1024\<rparr>"
  define big where "big = JString (replicate 1025 (CHR ''a''))"
  have a: "''Dangerous Shortcut'' \<noteq> []" by simp
  have b: "\<not> isShortcutAllowed ?cfg ''Dangerous Shortcut''"
    by (simp add: isShortcutAllowed_def defaultSecurity_def)
  have c: "maxInputSize ?cfg < calculateInputSize big"
    by (simp add: big_def calculateInputSize_def byteLength_replicate_ascii defaultSecurity_def)
  have d: "enableRateLimit ?cfg \<longrightarrow> allowed (fst (checkRateLimit ?cfg 0 Map.empty ''default''))"
    by (simp add: checkRateLimit_def defaultSecurity_def)
  have t: "truthy big \<and> maxInputSize ?cfg \<noteq> 0"
    by (simp add: big_def defaultSecurity_def)
  note inst = policy_before_input_size[OF a b c d]
  have "fst (validateRequest ?cfg 0 Map.empty
          \<lparr>method = ''tools/call'', params = runShortcutParams (JString ''Dangerous Shortcut'') big\<rparr>)
     = \<lparr>allowed = False, reason = Some ''Shortcut \"Dangerous Shortcut\" is not allowed'',
        riskLevel = HIGH\<rparr>"
    using conjunct1[OF inst] by (simp only: append.simps)
  moreover have "\<not> valid (validateInput ?cfg big)"
    using conjunct2[OF conjunct2[OF inst]] t by blast
  ultimately show ?thesis unfolding big_def by blast
qed

subsection \<open>Cache\<close>

lemma listShortcuts_hit:
  assumes "enableCache cfg"
    and "shortcutsCache st (getCacheKey ''shortcuts'' flt) = Some e"
    and "checkNow env - timestamp e \<le> ttl e"
  shows "listShortcuts cfg env st flt = (Inr (applyFilter (data e) flt), st\<lparr>hits := hits st + 1\<rparr>)"
  using assms by (simp add: listShortcuts_def isCacheExpired_def Let_def)

lemma listShortcuts_miss:
  assumes "enableCache cfg"
    and "shortcutsCache st (getCacheKey ''shortcuts'' flt) = None
         \<or> (\<exists>e. shortcutsCache st (getCacheKey ''shortcuts'' flt) = Some e
                 \<and> checkNow env - timestamp e > ttl e)"
  shows "listShortcuts cfg env st flt =
     (case discoverShortcuts (listCommand env) of
        Inl err \<Rightarrow> (Inl err, st\<lparr>misses := misses st + 1\<rparr>)
      | Inr found \<Rightarrow>
          (Inr (applyFilter found flt),
           st\<lparr>misses := misses st + 1,
              shortcutsCache := (shortcutsCache st)
                (getCacheKey ''shortcuts'' flt \<mapsto>
                   \<lparr>data = found, timestamp = storeNow env, ttl = cacheTimeout cfg\<rparr>)\<rparr>))"
  using assms by (auto simp: listShortcuts_def isCacheExpired_def Let_def split: sum.splits)

text \<open>
  Claim C3, as amended. With the cache enabled, a listing stored at the instant \<open>t\<close> under
  the time to live \<open>T\<close> is answered from the cache, unchanged, by every call that checks the
  clock at most \<open>T\<close> after \<open>t\<close> (a hit: the command is not run and the entry stays). A call
  that checks the clock more than \<open>T\<close> after \<open>t\<close> is a miss: it runs the command, and the
  entry is not deleted but overwritten when the new listing is stored (it stays when the
  command fails). An entry is expired exactly when its age is greater than its time to live.
\<close>

theorem cache_ttl:
  assumes on: "enableCache cfg"
    and fresh: "shortcutsCache st0 (getCacheKey ''shortcuts'' flt) = None"
    and found: "discoverShortcuts (listCommand env0) = Inr stored"
    and st1: "st1 = snd (listShortcuts cfg env0 st0 flt)"
  shows "shortcutsCache st1 (getCacheKey ''shortcuts'' flt)
           = Some \<lparr>data = stored, timestamp = storeNow env0, ttl = cacheTimeout cfg\<rparr>
    \<and> (checkNow env1 - storeNow env0 \<le> cacheTimeout cfg \<longrightarrow>
          listShortcuts cfg env1 st1 flt
            = (Inr (applyFilter stored flt), st1\<lparr>hits := hits st1 + 1\<rparr>))
    \<and> (checkNow env1 - storeNow env0 > cacheTimeout cfg \<longrightarrow>
          listShortcuts cfg env1 st1 flt =
            (case discoverShortcuts (listCommand env1) of
               Inl err \<Rightarrow> (Inl err, st1\<lparr>misses := misses st1 + 1\<rparr>)
             | Inr found \<Rightarrow>
                 (Inr (applyFilter found flt),
                  st1\<lparr>misses := misses st1 + 1,
                      shortcutsCache := (shortcutsCache st1)
                        (getCacheKey ''shortcuts'' flt \<mapsto>
                           \<lparr>data = found, timestamp = storeNow env1, ttl = cacheTimeout cfg\<rparr>)\<rparr>)))
    \<and> applyFilter stored None = stored
    \<and> (\<forall>now e. isCacheExpired now (e :: Shortcut list CacheEntry) \<longleftrightarrow> now - timestamp e > ttl e)"
proof -
  let ?key = "getCacheKey ''shortcuts'' flt"
  let ?e = "\<lparr>data = stored, timestamp = storeNow env0, ttl = cacheTimeout cfg\<rparr>"
  have first: "listShortcuts cfg env0 st0 flt =
      (Inr (applyFilter stored flt),
       st0\<lparr>misses := misses st0 + 1, shortcutsCache := (shortcutsCache st0)(?key \<mapsto> ?e)\<rparr>)"
    using listShortcuts_miss[OF on, of st0 flt env0] fresh found by simp
  have entry: "shortcutsCache st1 ?key = Some ?e"
    using first st1 by simp
  have hit: "listShortcuts cfg env1 st1 flt
            = (Inr (applyFilter stored flt), st1\<lparr>hits := hits st1 + 1\<rparr>)"
    if "checkNow env1 - storeNow env0 \<le> cacheTimeout cfg"
    using listShortcuts_hit[OF on entry, of env1] that by simp
  have miss: "listShortcuts cfg env1 st1 flt =
            (case discoverShortcuts (listCommand env1) of
               Inl err \<Rightarrow> (Inl err, st1\<lparr>misses := misses st1 + 1\<rparr>)
             | Inr found \<Rightarrow>
                 (Inr (applyFilter found flt),
                  st1\<lparr>misses := misses st1 + 1,
                      shortcutsCache := (shortcutsCache st1)
                        (?key \<mapsto> \<lparr>data = found, timestamp = storeNow env1, ttl = cacheTimeout cfg\<rparr>)\<rparr>))"
    if "checkNow env1 - storeNow env0 > cacheTimeout cfg"
    using listShortcuts_miss[OF on, of st1 flt env1] entry that by simp
  show ?thesis
    using entry hit miss by (simp add: applyFilter_def isCacheExpired_def)
qed

lemma discover_hello:
  "discoverShortcuts (Stdout ''Hello World\<newline>'' []) =
     Inr [\<lparr>name = ''Hello World'', description = Some ''macOS shortcut: Hello World'',
           category = UTILITIES\<rparr>]"
  by code_simp

lemma first_listing:
  "listShortcuts defaultShortcuts
      \<lparr>checkNow = 1000, listCommand = Stdout ''Hello World\<newline>'' [], storeNow = 1000\<rparr>
      newManager None =
     (Inr [\<lparr>name = ''Hello World'', description = Some ''macOS shortcut: Hello World'',
             category = UTILITIES\<rparr>],
      newManager\<lparr>misses := 1,
         shortcutsCache := [''shortcuts'' \<mapsto>
           \<lparr>data = [\<lparr>name = ''Hello World'', description = Some ''macOS shortcut: Hello World'',
                       category = UTILITIES\<rparr>],
            timestamp = 1000, ttl = 300000\<rparr>]\<rparr>)"
  using listShortcuts_miss[of defaultShortcuts newManager None
      "\<lparr>checkNow = 1000, listCommand = Stdout ''Hello World\<newline>'' [], storeNow = 1000\<rparr>"]
  by (simp add: discover_hello defaultShortcuts_def newManager_def getCacheKey_def applyFilter_def)

theorem cache_ttl_witness:
  "fst (listShortcuts defaultShortcuts
          \<lparr>checkNow = 300999, listCommand = CommandFailed ''unavailable'', storeNow = 300999\<rparr>
          (snd (listShortcuts defaultShortcuts
                  \<lparr>checkNow = 1000, listCommand = Stdout ''Hello World\<newline>'' [],
                   storeNow = 1000\<rparr> newManager None)) None)
     = Inr [\<lparr>name = ''Hello World'', description = Some ''macOS shortcut: Hello World'',
             category = UTILITIES\<rparr>]
   \<and> fst (listShortcuts defaultShortcuts
          \<lparr>checkNow = 301001, listCommand = CommandFailed ''unavailable'', storeNow = 301001\<rparr>
          (snd (listShortcuts defaultShortcuts
                  \<lparr>checkNow = 1000, listCommand = Stdout ''Hello World\<newline>'' [],
                   storeNow = 1000\<rparr> newManager None)) None)
     = Inl (ExecutionError ''Failed to list shortcuts'')"
proof -
  let ?env0 = "\<lparr>checkNow = 1000, listCommand = Stdout ''Hello World\<newline>'' [], storeNow = 1000\<rparr>"
  let ?hello = "[\<lparr>name = ''Hello World'', description = Some ''macOS shortcut: Hello World'',
             category = UTILITIES\<rparr>]"
  have on: "enableCache defaultShortcuts" by (simp add: defaultShortcuts_def)
  have fresh: "shortcutsCache newManager (getCacheKey ''shortcuts'' None) = None"
    by (simp add: newManager_def)
  have found: "discoverShortcuts (listCommand ?env0) = Inr ?hello"
    by (simp add: discover_hello)
  note inst = cache_ttl[OF on fresh found refl]
  have early: "checkNow \<lparr>checkNow = 300999, listCommand = CommandFailed ''unavailable'', storeNow = 300999\<rparr>
      - storeNow ?env0 \<le> cacheTimeout defaultShortcuts"
    by (simp add: defaultShortcuts_def)
  have late: "checkNow \<lparr>checkNow = 301001, listCommand = CommandFailed ''unavailable'', storeNow = 301001\<rparr>
      - storeNow ?env0 > cacheTimeout defaultShortcuts"
    by (simp add: defaultShortcuts_def)
  have a: "fst (listShortcuts defaultShortcuts
          \<lparr>checkNow = 300999, listCommand = CommandFailed ''unavailable'', storeNow = 300999\<rparr>
          (snd (listShortcuts defaultShortcuts ?env0 newManager None)) None) = Inr ?hello"
    using inst[of "\<lparr>checkNow = 300999, listCommand = CommandFailed ''unavailable'', storeNow = 300999\<rparr>"]
      early by (simp add: applyFilter_def)
  have b: "fst (listShortcuts defaultShortcuts
          \<lparr>checkNow = 301001, listCommand = CommandFailed ''unavailable'', storeNow = 301001\<rparr>
          (snd (listShortcuts defaultShortcuts ?env0 newManager None)) None)
     = Inl (ExecutionError ''Failed to list shortcuts'')"
    using inst[of "\<lparr>checkNow = 301001, listCommand = CommandFailed ''unavailable'', storeNow = 301001\<rparr>"]
      late by (simp add: discoverShortcuts_def)
  show ?thesis using a b by simp
qed

text \<open>
  The claim as stated makes the age \<open>T\<close> itself a miss. A listing stored at 1000 with the
  time to live 300000 and read at 301000 is a hit: the stored listing is returned, not the
  one the command would give.
\<close>

theorem cache_ttl_counterexample:
  "\<not> isCacheExpired 301000
       \<lparr>data = [\<lparr>name = ''Hello World'', description = Some ''macOS shortcut: Hello World'',
                   category = UTILITIES\<rparr>],
        timestamp = 1000, ttl = 300000\<rparr>
   \<and> fst (listShortcuts defaultShortcuts
          \<lparr>checkNow = 301000, listCommand = Stdout ''Current Time\<newline>'' [], storeNow = 301000\<rparr>
          (snd (listShortcuts defaultShortcuts
                  \<lparr>checkNow = 1000, listCommand = Stdout ''Hello World\<newline>'' [],
                   storeNow = 1000\<rparr> newManager None)) None)
     = Inr [\<lparr>name = ''Hello World'', description = Some ''macOS shortcut: Hello World'',
             category = UTILITIES\<rparr>]
   \<and> hits (snd (listShortcuts defaultShortcuts
          \<lparr>checkNow = 301000, listCommand = Stdout ''Current Time\<newline>'' [], storeNow = 301000\<rparr>
          (snd (listShortcuts defaultShortcuts
                  \<lparr>checkNow = 1000, listCommand = Stdout ''Hello World\<newline>'' [],
                   storeNow = 1000\<rparr> newManager None)) None)) = 1
   \<and> misses (snd (listShortcuts defaultShortcuts
          \<lparr>checkNow = 301000, listCommand = Stdout ''Current Time\<newline>'' [], storeNow = 301000\<rparr>
          (snd (listShortcuts defaultShortcuts
                  \<lparr>checkNow = 1000, listCommand = Stdout ''Hello World\<newline>'' [],
                   storeNow = 1000\<rparr> newManager None)) None)) = 1"
proof -
  let ?hello = "[\<lparr>name = ''Hello World'', description = Some ''macOS shortcut: Hello World'',
             category = UTILITIES\<rparr>]"
  let ?st1 = "newManager\<lparr>misses := 1,
         shortcutsCache := [''shortcuts'' \<mapsto> \<lparr>data = ?hello, timestamp = 1000, ttl = 300000\<rparr>]\<rparr>"
  let ?env1 = "\<lparr>checkNow = 301000, listCommand = Stdout ''Current Time\<newline>'' [], storeNow = 301000\<rparr>"
  have st: "snd (listShortcuts defaultShortcuts
                  \<lparr>checkNow = 1000, listCommand = Stdout ''Hello World\<newline>'' [],
                   storeNow = 1000\<rparr> newManager None) = ?st1"
    by (simp add: first_listing)
  have hit: "listShortcuts defaultShortcuts ?env1 ?st1 None
      = (Inr (applyFilter ?hello None), ?st1\<lparr>hits := hits ?st1 + 1\<rparr>)"
    using listShortcuts_hit[of defaultShortcuts ?st1 None
        "\<lparr>data = ?hello, timestamp = 1000, ttl = 300000\<rparr>" ?env1]
    by (simp add: defaultShortcuts_def getCacheKey_def)
  show ?thesis
    unfolding st hit by (simp add: isCacheExpired_def applyFilter_def newManager_def)
qed

subsection \<open>Input size\<close>

lemma calculateInputSize_unserializable:
  assumes "\<forall>s. input \<noteq> JString s" and "\<forall>t. stringify input \<noteq> Inr (Some t)"
  shows "calculateInputSize input = 0"
proof -
  have "(case stringify input of Inr (Some t) \<Rightarrow> byteLength t | Inr None \<Rightarrow> 0 | Inl e \<Rightarrow> 0) = 0"
    using assms(2) by (auto split: sum.splits option.splits)
  then show ?thesis
    using assms(1) by (cases input) (simp_all add: calculateInputSize_def)
qed

text \<open>
  Claim C10. For an input that is not a string and that \<open>JSON.stringify\<close> does not turn
  into a text (it throws, as on a self-referential structure or a \<open>BigInt\<close>, or it returns
  \<open>undefined\<close>), \<open>calculateInputSize\<close> is 0, and \<open>validateInput\<close> reports no error, so
  no \<open>INPUT_TOO_LARGE\<close>, for every maximum that is not negative (\<open>validateConfig\<close> admits
  only maxima of at least 1024).
\<close>

theorem unserializable_input_passes_size_check:
  assumes "\<forall>s. input \<noteq> JString s"
    and "\<forall>t. stringify input \<noteq> Inr (Some t)"
    and "0 \<le> maxInputSize cfg"
  shows "calculateInputSize input = 0
    \<and> errors (validateInput cfg input) = []
    \<and> (\<forall>e \<in> set (errors (validateInput cfg input)). code e \<noteq> ''INPUT_TOO_LARGE'')
    \<and> valid (validateInput cfg input)"
  using calculateInputSize_unserializable[OF assms(1,2)] assms(3)
  by (simp add: validateInput_def Let_def)

theorem unserializable_input_passes_size_check_witness:
  "calculateInputSize (JObject [(''id'', JBigInt 7)]) = 0
   \<and> valid (validateInput (defaultSecurity\<lparr>maxInputSize := 1024\<rparr>) (JObject [(''id'', JBigInt 7)]))"
  using unserializable_input_passes_size_check
    [of "JObject [(''id'', JBigInt 7)]" "defaultSecurity\<lparr>maxInputSize := 1024\<rparr>"]
  by (simp add: defaultSecurity_def)

subsection \<open>Sanitization\<close>

lemma sanitizeInput_scalar:
  "sanitizeInput JUndefined = JUndefined" "sanitizeInput JNull = JNull"
  "sanitizeInput (JBool b) = JBool b" "sanitizeInput (JNumber n) = JNumber n"
  "sanitizeInput (JBigInt n) = JBigInt n"
  by simp_all

lemma sanitizeInput_object_keys:
  "\<exists>kvs'. sanitizeInput (JObject kvs) = JObject kvs'
      \<and> map fst kvs' = filter (\<lambda>k. k \<noteq> ''__proto__'') (map fst kvs)"
  by (simp add: comp_def filter_map)

lemma sanitizeInput_array_kind: "sanitizeInput (JArray xs) \<noteq> JArray ys"
  by simp

text \<open>
  Claim C9. The claim holds for strings, for the other scalars and for objects (whose keys
  stay, but for a key \<open>__proto__\<close>), and fails for arrays: \<open>sanitizeInput\<close> stores the
  sanitized elements of an array into a plain object, under their indices as keys, so the array
  \<open>["<script>alert(1)</script>hello", 3]\<close> comes back as the object
  \<open>{"0": "hello", "1": 3}\<close>.
\<close>

theorem sanitizeInput_array_becomes_object:
  "sanitizeInput (JArray [JString ''<script>alert(1)</script>hello'', JNumber 3])
     = JObject [(''0'', JString ''hello''), (''1'', JNumber 3)]"
  by code_simp

subsection \<open>Timeout\<close>

lemma stringify_string: "stringify (JString s) = Inr (Some (quoteJSON s))"
  by simp

lemma buildCommand_sized:
  assumes "buildCommand request = Inr command"
  shows "\<exists>n. stringifiedLength (req_input request) = Inr n"
proof (cases "truthy (req_input request)")
  case False
  then show ?thesis by (simp add: stringifiedLength_def)
next
  case True
  then have ne: "req_input request \<noteq> JUndefined" "req_input request \<noteq> JNull" by auto
  from assms ne obtain inputStr where p: "prepareInput (req_input request) = Inr inputStr"
    by (auto simp: buildCommand_def Let_def split: sum.splits)
  then obtain t where "stringify (req_input request) = Inr (Some t)"
    by (cases "req_input request")
       (auto simp: prepareInput_def split: sum.splits option.splits)
  then show ?thesis using True by (simp add: stringifiedLength_def)
qed

lemma executeShortcut_timer:
  assumes found: "getShortcutInfo cfg (infoEnv env) st (req_name request) = (Some info, st')"
    and cmd: "buildCommand request = Inr command"
    and timer: "invoke env command = TimerFirst"
    and n: "stringifiedLength (req_input request) = Inr n"
  shows "executeShortcut cfg env st request =
      (Inr \<lparr>success = False,
            output = None,
            error = Some (''Execution timeout after ''
                          @ toStringJS (if req_timeout request = JUndefined
                                        then JNumber (defaultTimeout cfg) else req_timeout request)
                          @ ''ms''),
            executionTime = endNow env - startNow env,
            logs = [],
            metadata = \<lparr>shortcutName = req_name request, startTime = startNow env,
                        endTime = endDate env, inputSize = n, outputSize = 0,
                        warningsCount = 0, errorsCount = 1\<rparr>\<rparr>, st')"
  using found cmd timer n
  by (simp add: executeShortcut_def executeWithTimeout_def Let_def)

text \<open>
  Claim C8, as amended. When the shortcut is found, the command is built and the timer fires
  before the command ends, \<open>executeShortcut\<close> returns a result with \<open>success = False\<close>, no
  output, one error counted and, as \<open>error\<close>, the message of the \<open>TimeoutError\<close>:
  \<open>Execution timeout after <timeout>ms\<close>. The elapsed time is the difference of the two
  readings of the clock. The error that \<open>executeWithTimeout\<close> throws has the code
  \<open>EXECUTION_TIMEOUT\<close>, but the result keeps its message only. What the command would have
  produced does not enter the result.
\<close>

theorem timeout_result:
  assumes found: "getShortcutInfo cfg (infoEnv env) st (req_name request) = (Some info, st')"
    and cmd: "buildCommand request = Inr command"
    and timer: "invoke env command = TimerFirst"
  shows "(\<exists>n. executeShortcut cfg env st request =
      (Inr \<lparr>success = False,
            output = None,
            error = Some (''Execution timeout after ''
                          @ toStringJS (if req_timeout request = JUndefined
                                        then JNumber (defaultTimeout cfg) else req_timeout request)
                          @ ''ms''),
            executionTime = endNow env - startNow env,
            logs = [],
            metadata = \<lparr>shortcutName = req_name request, startTime = startNow env,
                        endTime = endDate env, inputSize = n, outputSize = 0,
                        warningsCount = 0, errorsCount = 1\<rparr>\<rparr>, st'))
    \<and> (\<forall>t. executeWithTimeout (invoke env command) t
           = Inl (TimeoutError (''Execution timeout after '' @ toStringJS t @ ''ms'')))
    \<and> (\<forall>m. errorCode (TimeoutError m) = Some ''EXECUTION_TIMEOUT'')"
proof -
  obtain n where n: "stringifiedLength (req_input request) = Inr n"
    using buildCommand_sized[OF cmd] by blast
  have "executeWithTimeout (invoke env command) t
       = Inl (TimeoutError (''Execution timeout after '' @ toStringJS t @ ''ms''))" for t
    using timer by (simp add: executeWithTimeout_def)
  then show ?thesis
    using executeShortcut_timer[OF found cmd timer n] by auto
qed

lemma weather_info:
  "fst (getShortcutInfo defaultShortcuts (infoEnv (exampleExecEnv race)) newManager
          (JString ''Weather Report''))
     = Some \<lparr>name = ''Weather Report'', description = Some ''macOS shortcut: Weather Report'',
              category = UTILITIES, actionCount = 1, info_size = 1024,
              info_isSystemShortcut = False\<rparr>"
  by code_simp

lemma weather_command:
  "buildCommand weatherRequest = Inr ''shortcuts run \"Weather Report\" -i \"San Francisco\"''"
  by code_simp

theorem timeout_result_witness:
  "(case fst (executeShortcut defaultShortcuts (exampleExecEnv TimerFirst) newManager weatherRequest) of
      Inl e \<Rightarrow> False
    | Inr r \<Rightarrow> \<not> success r \<and> error r = Some ''Execution timeout after 1000ms''
               \<and> executionTime r = 1003 \<and> errorsCount (metadata r) = 1)"
proof -
  let ?env = "exampleExecEnv TimerFirst"
  let ?info = "\<lparr>name = ''Weather Report'', description = Some ''macOS shortcut: Weather Report'',
              category = UTILITIES, actionCount = 1, info_size = 1024,
              info_isSystemShortcut = False\<rparr>"
  have found: "getShortcutInfo defaultShortcuts (infoEnv ?env) newManager (req_name weatherRequest)
      = (Some ?info, snd (getShortcutInfo defaultShortcuts (infoEnv ?env) newManager
                            (req_name weatherRequest)))"
    using weather_info[of TimerFirst] by (simp add: weatherRequest_def prod_eq_iff)
  have timer: "invoke ?env ''shortcuts run \"Weather Report\" -i \"San Francisco\"'' = TimerFirst"
    by (simp add: exampleExecEnv_def)
  from timeout_result[OF found weather_command timer]
  obtain n where "executeShortcut defaultShortcuts ?env newManager weatherRequest =
      (Inr \<lparr>success = False,
            output = None,
            error = Some (''Execution timeout after ''
                          @ toStringJS (if req_timeout weatherRequest = JUndefined
                                        then JNumber (defaultTimeout defaultShortcuts)
                                        else req_timeout weatherRequest)
                          @ ''ms''),
            executionTime = endNow ?env - startNow ?env,
            logs = [],
            metadata = \<lparr>shortcutName = req_name weatherRequest, startTime = startNow ?env,
                        endTime = endDate ?env, inputSize = n, outputSize = 0,
                        warningsCount = 0, errorsCount = 1\<rparr>\<rparr>,
       snd (getShortcutInfo defaultShortcuts (infoEnv ?env) newManager (req_name weatherRequest)))"
    by blast
  then show ?thesis
    by (simp add: weatherRequest_def exampleExecEnv_def showInt_eval)
qed

text \<open>
  The claim as stated puts the classification \<open>EXECUTION_TIMEOUT\<close> into the result. The
  result of a run that times out after 1000 ms holds the message and no code.
\<close>

theorem timeout_result_counterexample:
  "fst (executeShortcut defaultShortcuts (exampleExecEnv TimerFirst) newManager weatherRequest)
     = Inr \<lparr>success = False, output = None,
            error = Some ''Execution timeout after 1000ms'',
            executionTime = 1003, logs = [],
            metadata = \<lparr>shortcutName = JString ''Weather Report'', startTime = 5000,
                        endTime = 6003, inputSize = 15, outputSize = 0,
                        warningsCount = 0, errorsCount = 1\<rparr>\<rparr>
   \<and> (case fst (executeShortcut defaultShortcuts (exampleExecEnv TimerFirst) newManager
                   weatherRequest) of
        Inl e \<Rightarrow> False
      | Inr r \<Rightarrow> error r \<noteq> Some ''EXECUTION_TIMEOUT'')"
  by code_simp

subsection \<open>The pipeline\<close>

lemma handleCallTool_rejected:
  assumes "\<not> allowed (fst (validateRequest (security cfg) (validateNow env) (rateLimitTracker st)
                              \<lparr>method = ''tools/call'', params = ps\<rparr>))"
  shows "execution (fst (handleCallTool cfg env st ps)) = None
    \<and> auditLog (snd (handleCallTool cfg env st ps)) = auditLog st
    \<and> manager (snd (handleCallTool cfg env st ps)) = manager st"
proof -
  obtain sr tr where vr: "validateRequest (security cfg) (validateNow env) (rateLimitTracker st)
                              \<lparr>method = ''tools/call'', params = ps\<rparr> = (sr, tr)"
    by (cases "validateRequest (security cfg) (validateNow env) (rateLimitTracker st)
                              \<lparr>method = ''tools/call'', params = ps\<rparr>")
  show ?thesis
    using assms by (simp add: handleCallTool_def Let_def vr)
qed

lemma accepted_run_shortcut:
  assumes acc: "allowed (fst (validateRequest (security cfg) now tracker
                              \<lparr>method = ''tools/call'', params = ps\<rparr>))"
    and tool: "getProp ps ''name'' = JString ''run_shortcut''"
    and nm: "getProp (getProp ps ''arguments'') ''name'' = JString nm"
  shows "nm \<noteq> [] \<and> isShortcutAllowed (security cfg) nm"
proof -
  have t: "truthy (getProp (getProp ps ''arguments'') ''name'')"
  proof (rule ccontr)
    assume "\<not> truthy (getProp (getProp ps ''arguments'') ''name'')"
    then have "validateRunShortcut (security cfg) (getProp ps ''arguments'')
        = Inr \<lparr>allowed = False, reason = Some ''Shortcut name is required'', riskLevel = MEDIUM\<rparr>"
      by (simp add: validateRunShortcut_def)
    then show False
      using acc by (simp add: validateRequest_run_shortcut[OF tool] Let_def split: if_splits)
  qed
  then have ne: "nm \<noteq> []" using nm by simp
  have "isShortcutAllowed (security cfg) nm"
  proof (rule ccontr)
    assume "\<not> isShortcutAllowed (security cfg) nm"
    then show False
      using acc
      by (simp add: validateRequest_run_shortcut[OF tool] validateRunShortcut_string[OF nm ne]
          Let_def split: if_splits)
  qed
  then show ?thesis using ne by simp
qed

lemma handleCallTool_run:
  assumes acc: "allowed (fst (validateRequest (security cfg) (validateNow env) (rateLimitTracker st)
                              \<lparr>method = ''tools/call'', params = ps\<rparr>))"
    and tool: "getProp ps ''name'' = JString ''run_shortcut''"
    and nm: "getProp (getProp ps ''arguments'') ''name'' = JString nm"
    and run: "executeShortcut (shortcuts cfg) (execEnv env) (manager st)
                \<lparr>req_name = JString nm,
                 req_input = getProp (getProp ps ''arguments'') ''input'',
                 req_timeout = (if truthy (getProp (getProp ps ''arguments'') ''timeout'')
                                then getProp (getProp ps ''arguments'') ''timeout''
                                else JNumber (defaultTimeout (shortcuts cfg)))\<rparr> = (Inr r, m')"
  shows "execution (fst (handleCallTool cfg env st ps)) = Some r
    \<and> (success r \<longrightarrow>
          auditLog (snd (handleCallTool cfg env st ps))
            = logExecution (security cfg) (logEnv env) (auditLog st) nm
                \<lparr>det_input = getProp (getProp ps ''arguments'') ''input'',
                 det_executionTime = executionTime r, det_success = True, det_error = None\<rparr>)
    \<and> (\<not> success r \<longrightarrow> auditLog (snd (handleCallTool cfg env st ps)) = auditLog st)"
proof -
  have ok: "nm \<noteq> []" "isShortcutAllowed (security cfg) nm"
    using accepted_run_shortcut[OF acc tool nm] by simp_all
  obtain sr tr where vr: "validateRequest (security cfg) (validateNow env) (rateLimitTracker st)
                              \<lparr>method = ''tools/call'', params = ps\<rparr> = (sr, tr)"
    by (cases "validateRequest (security cfg) (validateNow env) (rateLimitTracker st)
                              \<lparr>method = ''tools/call'', params = ps\<rparr>")
  have sr: "allowed sr" using acc vr by simp
  have body: "handleCallTool cfg env st ps
      = handleRunShortcut cfg env (st\<lparr>rateLimitTracker := tr\<rparr>) (getProp ps ''arguments'')"
    using sr tool by (simp add: handleCallTool_def Let_def vr)
  show ?thesis
    unfolding body
    using nm ok run
    by (simp add: handleRunShortcut_def isShortcutAllowedAny_def Let_def)
qed



lemma weather_allowed: "isShortcutAllowed defaultSecurity ''Weather Report''"
  by code_simp

lemma weather_accepted:
  "allowed (fst (validateRequest (security exampleConfig) 5000 Map.empty
       \<lparr>method = ''tools/call'',
        params = runShortcutParams (JString ''Weather Report'') (JString ''San Francisco'')\<rparr>))"
proof -
  have rl: "checkRateLimit defaultSecurity 5000 Map.empty ''default''
      = (\<lparr>allowed = True, reason = None, riskLevel = LOW\<rparr>, [''default'' \<mapsto> [5000]])"
    by (simp add: checkRateLimit_def defaultSecurity_def)
  have sz: "calculateInputSize (JString ''San Francisco'') = 13"
    by (simp add: calculateInputSize_def byteLength_def)
  have vi: "valid (validateInput defaultSecurity (JString ''San Francisco''))"
    by (simp add: validateInput_def sz Let_def defaultSecurity_def)
  have "validateRunShortcut defaultSecurity
          (JObject [(''name'', JString ''Weather Report''), (''input'', JString ''San Francisco'')])
      = Inr \<lparr>allowed = True, reason = None, riskLevel = LOW\<rparr>"
    using validateRunShortcut_string[of
        "JObject [(''name'', JString ''Weather Report''), (''input'', JString ''San Francisco'')]"
        "''Weather Report''" defaultSecurity]
      weather_allowed vi by simp
  then show ?thesis
    using validateRequest_run_shortcut[of
        "runShortcutParams (JString ''Weather Report'') (JString ''San Francisco'')"
        defaultSecurity 5000 Map.empty] rl
    by (simp add: runShortcutParams_def exampleConfig_def)
qed

lemma weather_default_timeout:
  "fst (executeShortcut defaultShortcuts (exampleExecEnv TimerFirst) newManager
          \<lparr>req_name = JString ''Weather Report'', req_input = JString ''San Francisco'',
           req_timeout = JNumber 10000\<rparr>)
     = Inr \<lparr>success = False, output = None,
            error = Some ''Execution timeout after 10000ms'',
            executionTime = 1003, logs = [],
            metadata = \<lparr>shortcutName = JString ''Weather Report'', startTime = 5000,
                        endTime = 6003, inputSize = 15, outputSize = 0,
                        warningsCount = 0, errorsCount = 1\<rparr>\<rparr>"
proof -
  let ?env = "exampleExecEnv TimerFirst"
  let ?req = "\<lparr>req_name = JString ''Weather Report'', req_input = JString ''San Francisco'',
           req_timeout = JNumber 10000\<rparr>"
  let ?info = "\<lparr>name = ''Weather Report'', description = Some ''macOS shortcut: Weather Report'',
              category = UTILITIES, actionCount = 1, info_size = 1024,
              info_isSystemShortcut = False\<rparr>"
  have found: "getShortcutInfo defaultShortcuts (infoEnv ?env) newManager (req_name ?req)
      = (Some ?info, snd (getShortcutInfo defaultShortcuts (infoEnv ?env) newManager (req_name ?req)))"
    using weather_info[of TimerFirst] by (simp add: prod_eq_iff)
  have cmd: "buildCommand ?req = Inr ''shortcuts run \"Weather Report\" -i \"San Francisco\"''"
    by code_simp
  have timer: "invoke ?env ''shortcuts run \"Weather Report\" -i \"San Francisco\"'' = TimerFirst"
    by (simp add: exampleExecEnv_def)
  have n: "stringifiedLength (req_input ?req) = Inr 15"
    by code_simp
  show ?thesis
    using executeShortcut_timer[OF found cmd timer n]
    by (simp add: exampleExecEnv_def showInt_eval)
qed

lemma weather_echo:
  "fst (executeShortcut defaultShortcuts (exampleExecEnv (Resolved ''San Francisco'' [])) newManager
          \<lparr>req_name = JString ''Weather Report'', req_input = JString ''San Francisco'',
           req_timeout = JNumber 10000\<rparr>)
     = Inr \<lparr>success = True, output = Some (JString ''San Francisco''),
            error = None,
            executionTime = 1003, logs = [],
            metadata = \<lparr>shortcutName = JString ''Weather Report'', startTime = 5000,
                        endTime = 6003, inputSize = 15, outputSize = 13,
                        warningsCount = 0, errorsCount = 0\<rparr>\<rparr>"
  by code_simp

text \<open>
  Claim C1. A request that \<open>validateRequest\<close> rejects reaches no handler: no
  \<open>ExecutionResult\<close> is produced and the audit log is unchanged
  (\<open>handleCallTool_rejected\<close>). An accepted call of \<open>run_shortcut\<close> whose execution succeeds
  appends one entry (\<open>handleCallTool_run\<close>). An accepted call whose execution fails appends
  none, against the claim: \<open>handleRunShortcut\<close> throws on \<open>!result.success\<close> before it
  reaches \<open>logExecution\<close>. In the example the request is accepted; when the timer fires
  first the result has \<open>success = False\<close> and the audit log stays empty, and when the
  command echoes its input the log holds one entry with \<open>success = True\<close>.
\<close>

theorem failed_execution_leaves_no_audit_entry:
  "allowed (fst (validateRequest (security exampleConfig) 5000 Map.empty
       \<lparr>method = ''tools/call'',
        params = runShortcutParams (JString ''Weather Report'') (JString ''San Francisco'')\<rparr>))
   \<and> map_option success (execution (fst (handleCallTool exampleConfig (exampleHandlerEnv TimerFirst)
         newServer (runShortcutParams (JString ''Weather Report'') (JString ''San Francisco'')))))
       = Some False
   \<and> auditLog (snd (handleCallTool exampleConfig (exampleHandlerEnv TimerFirst)
         newServer (runShortcutParams (JString ''Weather Report'') (JString ''San Francisco''))))
       = []
   \<and> map entry_success (auditLog (snd (handleCallTool exampleConfig
         (exampleHandlerEnv (Resolved ''San Francisco'' []))
         newServer (runShortcutParams (JString ''Weather Report'') (JString ''San Francisco'')))))
       = [True]"
proof -
  let ?ps = "runShortcutParams (JString ''Weather Report'') (JString ''San Francisco'')"
  let ?req = "\<lparr>req_name = JString ''Weather Report'', req_input = JString ''San Francisco'',
           req_timeout = JNumber 10000\<rparr>"
  have tool: "getProp ?ps ''name'' = JString ''run_shortcut''"
    and nm: "getProp (getProp ?ps ''arguments'') ''name'' = JString ''Weather Report''"
    and inp: "getProp (getProp ?ps ''arguments'') ''input'' = JString ''San Francisco''"
    and tmo: "getProp (getProp ?ps ''arguments'') ''timeout'' = JUndefined"
    by (simp_all add: runShortcutParams_def)
  have acc: "allowed (fst (validateRequest (security exampleConfig) (validateNow (exampleHandlerEnv race))
        (rateLimitTracker newServer) \<lparr>method = ''tools/call'', params = ?ps\<rparr>))" for race
    using weather_accepted by (simp add: exampleHandlerEnv_def newServer_def)
  have run: "executeShortcut (shortcuts exampleConfig) (execEnv (exampleHandlerEnv race)) (manager newServer)
                \<lparr>req_name = JString ''Weather Report'',
                 req_input = getProp (getProp ?ps ''arguments'') ''input'',
                 req_timeout = (if truthy (getProp (getProp ?ps ''arguments'') ''timeout'')
                                then getProp (getProp ?ps ''arguments'') ''timeout''
                                else JNumber (defaultTimeout (shortcuts exampleConfig)))\<rparr>
       = (fst (executeShortcut defaultShortcuts (exampleExecEnv race) newManager ?req),
          snd (executeShortcut defaultShortcuts (exampleExecEnv race) newManager ?req))" for race
    by (simp add: inp tmo exampleConfig_def exampleHandlerEnv_def newServer_def)
       (simp add: defaultShortcuts_def)
  note late = handleCallTool_run[OF acc tool nm run[of TimerFirst, unfolded weather_default_timeout]]
  note echo = handleCallTool_run[OF acc tool nm
      run[of "Resolved ''San Francisco'' []", unfolded weather_echo]]
  have a: "map_option success (execution (fst (handleCallTool exampleConfig (exampleHandlerEnv TimerFirst)
         newServer ?ps))) = Some False"
    using late by simp
  have b: "auditLog (snd (handleCallTool exampleConfig (exampleHandlerEnv TimerFirst) newServer ?ps)) = []"
    using late by (simp add: newServer_def)
  have c: "map entry_success (auditLog (snd (handleCallTool exampleConfig
         (exampleHandlerEnv (Resolved ''San Francisco'' [])) newServer ?ps))) = [True]"
    using echo by (simp add: newServer_def logExecution_def newAuditEntry_def Let_def)
  show ?thesis using weather_accepted a b c by simp
qed

subsection \<open>Redaction\<close>

lemma isSpace_lower: "isSpace c \<Longrightarrow> asciiLower c = c"
  by (auto simp: isSpace_def asciiLower_def)

lemma afterSep_rest:
  assumes "afterSep s = Some r"
  shows "suffix r s \<and> length r < length s \<and> spaceHead r"
proof -
  from assms obtain x q where d: "dropWhile isSpace s = x # q"
    and r: "r = dropWhile (\<lambda>c. \<not> isSpace c) q"
    by (auto simp: afterSep_def split: list.splits)
  have s1: "suffix (x # q) s" by (metis d suffix_dropWhile)
  have s2: "suffix r q" by (simp add: r suffix_dropWhile)
  have "suffix r (x # q)" using s2 by (simp add: suffix_Cons)
  then have suf: "suffix r s" using s1 suffix_order.trans by blast
  have "length r \<le> length q" by (simp add: r length_dropWhile_le)
  moreover have "length (x # q) \<le> length s" using s1 by (rule suffix_length_le)
  ultimately have len: "length r < length s" by simp
  have "spaceHead r"
  proof (cases r)
    case Nil then show ?thesis by (simp add: spaceHead_def)
  next
    case (Cons a as)
    then have "dropWhile (\<lambda>c. \<not> isSpace c) q \<noteq> []" using r by simp
    from hd_dropWhile[OF this] have "isSpace (hd r)" using r by simp
    then show ?thesis using Cons by (simp add: spaceHead_def)
  qed
  then show ?thesis using suf len by simp
qed

lemma afterKey_rest:
  assumes "afterKey s = Some r"
  shows "suffix r s \<and> length r < length s \<and> spaceHead r"
proof -
  from assms obtain d q where dw: "dropWhile isSpace s = d # q" and a: "afterSep q = Some r"
    by (auto simp: afterKey_def split: list.splits if_splits)
  have s1: "suffix (d # q) s" by (metis dw suffix_dropWhile)
  then have "suffix q s" by (meson suffix_ConsD)
  moreover have "length q < length s" using suffix_length_le[OF s1] by simp
  ultimately show ?thesis
    using afterSep_rest[OF a] by (meson suffix_order.trans less_trans)
qed

lemma stripCI_rest:
  "stripCI ks s = Some r \<Longrightarrow> suffix r s \<and> length r \<le> length s"
proof (induction ks s rule: stripCI.induct)
  case (1 s) then show ?case by simp
next
  case (2 p ps) then show ?case by simp
next
  case (3 p ps c cs)
  then show ?case by (auto simp: suffix_Cons split: if_splits)
qed

lemma matchKeyValue_rest:
  assumes "matchKeyValue kw s = Some r"
  shows "suffix r s \<and> length r < length s \<and> spaceHead r"
proof -
  from assms obtain q where q: "stripCI kw s = Some q" and a: "afterKey q = Some r"
    by (auto simp: matchKeyValue_def split: option.splits)
  show ?thesis
    using stripCI_rest[OF q] afterKey_rest[OF a]
    by (meson suffix_order.trans less_le_trans)
qed

lemma matchKeyValue_Nil [simp]: "matchKeyValue kw [] = None"
  by (cases kw) (simp_all add: matchKeyValue_def afterKey_def)

lemma redact_Nil [simp]: "redact kw [] = []"
  by (simp add: redact_def)

lemma redact_Cons:
  "redact kw (c # cs) =
     (case matchKeyValue kw (c # cs) of
        None \<Rightarrow> c # redact kw cs
      | Some r \<Rightarrow> kw @ '': [REDACTED]'' @ redact kw r)"
proof (cases "matchKeyValue kw (c # cs)")
  case None
  then show ?thesis by (simp add: redact_def)
next
  case (Some r)
  then have "length r \<le> length cs" using matchKeyValue_rest[OF Some] by simp
  then show ?thesis using Some by (simp add: redact_def)
qed

lemma matchKeyValue_Cons:
  "matchKeyValue (k # ks) (c # cs) = (if asciiLower c = k then matchKeyValue ks cs else None)"
  by (simp add: matchKeyValue_def)

lemma matchKeyValue_empty: "matchKeyValue [] s = afterKey s"
  by (simp add: matchKeyValue_def)

lemma afterSep_Cons:
  "afterSep (c # cs) = (if isSpace c then afterSep cs else Some (dropWhile (\<lambda>c. \<not> isSpace c) cs))"
  by (simp add: afterSep_def)

lemma afterKey_Cons:
  "afterKey (c # cs) =
     (if isSpace c then afterKey cs
      else if c = CHR '':'' \<or> c = CHR ''='' then afterSep cs else None)"
  by (simp add: afterKey_def)

lemma afterSep_Nil [simp]: "afterSep [] = None" by (simp add: afterSep_def)
lemma afterKey_Nil [simp]: "afterKey [] = None" by (simp add: afterKey_def)

lemma afterSep_redact:
  assumes kw: "kw' \<noteq> []" "\<not> isSpace (hd kw')"
  shows "afterSep (redact kw' s) \<noteq> None \<Longrightarrow> afterSep s \<noteq> None"
proof (induction s)
  case Nil
  then show ?case by simp
next
  case (Cons c cs)
  show ?case
  proof (cases "isSpace c")
    case False
    then show ?thesis by (simp add: afterSep_Cons)
  next
    case True
    obtain k ks where k: "kw' = k # ks" using kw(1) by (cases kw') auto
    have "asciiLower c \<noteq> k" using True kw(2) k isSpace_lower[OF True] by auto
    then have "matchKeyValue kw' (c # cs) = None" by (simp add: k matchKeyValue_Cons)
    then have "redact kw' (c # cs) = c # redact kw' cs" by (simp add: redact_Cons)
    then show ?thesis using Cons True by (simp add: afterSep_Cons)
  qed
qed

lemma matchKeyValue_redact:
  assumes kw: "kw' \<noteq> []" "\<not> isSpace (hd kw')"
    and F1: "\<And>ks t. suffix ks kw \<Longrightarrow> spaceHead t \<Longrightarrow>
               matchKeyValue ks (kw' @ '': [REDACTED]'' @ t) \<noteq> None \<Longrightarrow> ks = kw'"
    and H: "\<And>r. spaceHead r \<Longrightarrow> spaceHead (redact kw' r)"
  shows "suffix ks kw \<Longrightarrow> matchKeyValue ks (redact kw' s) \<noteq> None \<Longrightarrow> matchKeyValue ks s \<noteq> None"
proof (induction s arbitrary: ks)
  case Nil
  then show ?case by simp
next
  case (Cons c cs)
  show ?case
  proof (cases "matchKeyValue kw' (c # cs)")
    case (Some r)
    then have red: "redact kw' (c # cs) = kw' @ '': [REDACTED]'' @ redact kw' r"
      by (simp add: redact_Cons)
    have "spaceHead (redact kw' r)" using matchKeyValue_rest[OF Some] H by blast
    then have "ks = kw'" using F1[OF Cons.prems(1)] Cons.prems(2) red by simp
    then show ?thesis using Some by simp
  next
    case None
    then have red: "redact kw' (c # cs) = c # redact kw' cs" by (simp add: redact_Cons)
    show ?thesis
    proof (cases ks)
      case Nil
      have m: "afterKey (c # redact kw' cs) \<noteq> None"
        using Cons.prems(2) red Nil by (simp add: matchKeyValue_empty)
      show ?thesis
      proof (cases "isSpace c")
        case True
        then have "matchKeyValue [] (redact kw' cs) \<noteq> None"
          using m by (simp add: afterKey_Cons matchKeyValue_empty)
        then have "matchKeyValue [] cs \<noteq> None" using Cons.IH[of "[]"] by simp
        then show ?thesis using True Nil by (simp add: afterKey_Cons matchKeyValue_empty)
      next
        case False
        then have sep: "c = CHR '':'' \<or> c = CHR ''=''" and a: "afterSep (redact kw' cs) \<noteq> None"
          using m by (auto simp: afterKey_Cons split: if_splits)
        have "afterSep cs \<noteq> None" using afterSep_redact[OF kw a] .
        then show ?thesis using False sep Nil by (simp add: afterKey_Cons matchKeyValue_empty)
      qed
    next
      case (Cons k ks')
      have suf: "suffix ks' kw" using Cons.prems(1) Cons by (meson suffix_ConsD)
      have "asciiLower c = k" and "matchKeyValue ks' (redact kw' cs) \<noteq> None"
        using Cons.prems(2) red Cons by (auto simp: matchKeyValue_Cons split: if_splits)
      then show ?thesis using Cons.IH[OF suf] Cons by (simp add: matchKeyValue_Cons)
    qed
  qed
qed

lemma lower_chars:
  "asciiLower CHR ''p'' = CHR ''p''" "asciiLower CHR ''a'' = CHR ''a''" "asciiLower CHR ''s'' = CHR ''s''"
  "asciiLower CHR ''w'' = CHR ''w''" "asciiLower CHR ''o'' = CHR ''o''" "asciiLower CHR ''r'' = CHR ''r''"
  "asciiLower CHR ''d'' = CHR ''d''" "asciiLower CHR ''t'' = CHR ''t''" "asciiLower CHR ''k'' = CHR ''k''"
  "asciiLower CHR ''e'' = CHR ''e''" "asciiLower CHR ''n'' = CHR ''n''" "asciiLower CHR ''y'' = CHR ''y''"
  "asciiLower CHR ''c'' = CHR ''c''" "asciiLower CHR '':'' = CHR '':''" "asciiLower CHR '' '' = CHR '' ''"
  "asciiLower CHR ''['' = CHR ''[''" "asciiLower CHR '']'' = CHR '']''" "asciiLower CHR ''='' = CHR ''=''"
  "asciiLower CHR ''R'' = CHR ''r''" "asciiLower CHR ''E'' = CHR ''e''" "asciiLower CHR ''D'' = CHR ''d''"
  "asciiLower CHR ''A'' = CHR ''a''" "asciiLower CHR ''C'' = CHR ''c''" "asciiLower CHR ''T'' = CHR ''t''"
  by code_simp+

lemma space_chars:
  "\<not> isSpace CHR ''p''" "\<not> isSpace CHR ''a''" "\<not> isSpace CHR ''s''" "\<not> isSpace CHR ''w''"
  "\<not> isSpace CHR ''o''" "\<not> isSpace CHR ''r''" "\<not> isSpace CHR ''d''" "\<not> isSpace CHR ''t''"
  "\<not> isSpace CHR ''k''" "\<not> isSpace CHR ''e''" "\<not> isSpace CHR ''n''" "\<not> isSpace CHR ''y''"
  "\<not> isSpace CHR ''c''" "\<not> isSpace CHR '':''" "isSpace CHR '' ''" "\<not> isSpace CHR ''[''"
  "\<not> isSpace CHR '']''" "\<not> isSpace CHR ''=''" "\<not> isSpace CHR ''R''" "\<not> isSpace CHR ''E''"
  "\<not> isSpace CHR ''D''" "\<not> isSpace CHR ''A''" "\<not> isSpace CHR ''C''" "\<not> isSpace CHR ''T''"
  by (simp_all add: isSpace_def)

lemma spaceHead_dropWhile: "spaceHead t \<Longrightarrow> dropWhile (\<lambda>c. \<not> isSpace c) t = t"
  by (cases t) (simp_all add: spaceHead_def)

lemma spaceHead_matchKeyValue:
  "spaceHead t \<Longrightarrow> \<not> isSpace k \<Longrightarrow> matchKeyValue (k # ks) t = None"
  by (cases t) (auto simp: spaceHead_def matchKeyValue_Cons isSpace_lower)

lemmas match_eval = matchKeyValue_Cons matchKeyValue_empty afterKey_Cons afterSep_Cons
  lower_chars space_chars spaceHead_dropWhile

lemma match_replacement:
  assumes "kw \<in> set keyWords" and "spaceHead t"
  shows "matchKeyValue kw (kw @ '': [REDACTED]'' @ t) = Some t"
  using assms by (auto simp: keyWords_def match_eval)

lemma match_in_replacement:
  assumes "kw \<in> set keyWords" and "kw' \<in> set keyWords" and "spaceHead t"
    and "suffix ks kw"
    and "matchKeyValue ks (kw' @ '': [REDACTED]'' @ t) \<noteq> None"
  shows "ks = kw'"
  using assms
  by (auto simp: keyWords_def suffix_Cons match_eval split: if_splits)

lemma inner_password:
  assumes "spaceHead u"
    and "suffix q ''password: [REDACTED]''" and "q \<noteq> []" and "q \<noteq> ''password: [REDACTED]''"
    and "k \<in> set keyWords"
  shows "matchKeyValue k (q @ u) = None"
proof -
  have "q \<in> set
        [''assword: [REDACTED]'', ''ssword: [REDACTED]'', ''sword: [REDACTED]'',
         ''word: [REDACTED]'', ''ord: [REDACTED]'', ''rd: [REDACTED]'', ''d: [REDACTED]'',
         '': [REDACTED]'', '' [REDACTED]'', ''[REDACTED]'', ''REDACTED]'', ''EDACTED]'',
         ''DACTED]'', ''ACTED]'', ''CTED]'', ''TED]'', ''ED]'', ''D]'', '']'']"
    using assms(2,3,4) by (auto simp: suffix_Cons)
  then show ?thesis
    using assms(1,5) by (auto simp: keyWords_def match_eval spaceHead_matchKeyValue)
qed

lemma inner_token:
  assumes "spaceHead u"
    and "suffix q ''token: [REDACTED]''" and "q \<noteq> []" and "q \<noteq> ''token: [REDACTED]''"
    and "k \<in> set keyWords"
  shows "matchKeyValue k (q @ u) = None"
proof -
  have "q \<in> set
        [''oken: [REDACTED]'', ''ken: [REDACTED]'', ''en: [REDACTED]'', ''n: [REDACTED]'',
         '': [REDACTED]'', '' [REDACTED]'', ''[REDACTED]'', ''REDACTED]'', ''EDACTED]'',
         ''DACTED]'', ''ACTED]'', ''CTED]'', ''TED]'', ''ED]'', ''D]'', '']'']"
    using assms(2,3,4) by (auto simp: suffix_Cons)
  then show ?thesis
    using assms(1,5) by (auto simp: keyWords_def match_eval spaceHead_matchKeyValue)
qed

lemma inner_key:
  assumes "spaceHead u"
    and "suffix q ''key: [REDACTED]''" and "q \<noteq> []" and "q \<noteq> ''key: [REDACTED]''"
    and "k \<in> set keyWords"
  shows "matchKeyValue k (q @ u) = None"
proof -
  have "q \<in> set
        [''ey: [REDACTED]'', ''y: [REDACTED]'', '': [REDACTED]'', '' [REDACTED]'',
         ''[REDACTED]'', ''REDACTED]'', ''EDACTED]'', ''DACTED]'', ''ACTED]'', ''CTED]'',
         ''TED]'', ''ED]'', ''D]'', '']'']"
    using assms(2,3,4) by (auto simp: suffix_Cons)
  then show ?thesis
    using assms(1,5) by (auto simp: keyWords_def match_eval spaceHead_matchKeyValue)
qed

lemma inner_secret:
  assumes "spaceHead u"
    and "suffix q ''secret: [REDACTED]''" and "q \<noteq> []" and "q \<noteq> ''secret: [REDACTED]''"
    and "k \<in> set keyWords"
  shows "matchKeyValue k (q @ u) = None"
proof -
  have "q \<in> set
        [''ecret: [REDACTED]'', ''cret: [REDACTED]'', ''ret: [REDACTED]'',
         ''et: [REDACTED]'', ''t: [REDACTED]'', '': [REDACTED]'', '' [REDACTED]'',
         ''[REDACTED]'', ''REDACTED]'', ''EDACTED]'', ''DACTED]'', ''ACTED]'', ''CTED]'',
         ''TED]'', ''ED]'', ''D]'', '']'']"
    using assms(2,3,4) by (auto simp: suffix_Cons)
  then show ?thesis
    using assms(1,5) by (auto simp: keyWords_def match_eval spaceHead_matchKeyValue)
qed

lemma inner_none:
  assumes kw: "kw \<in> set keyWords" and kw': "kw' \<in> set keyWords" and u: "spaceHead u"
    and q: "suffix q (kw' @ '': [REDACTED]'')" "q \<noteq> []" "q \<noteq> kw' @ '': [REDACTED]''"
  shows "matchKeyValue kw (q @ u) = None"
proof -
  from kw' consider "kw' = ''password''" | "kw' = ''token''" | "kw' = ''key''" | "kw' = ''secret''"
    by (auto simp: keyWords_def)
  then show ?thesis
  proof cases
    case 1
    then have "suffix q ''password: [REDACTED]''" and "q \<noteq> ''password: [REDACTED]''"
      using q by simp_all
    then show ?thesis using inner_password[OF u _ q(2) _ kw] by blast
  next
    case 2
    then have "suffix q ''token: [REDACTED]''" and "q \<noteq> ''token: [REDACTED]''"
      using q by simp_all
    then show ?thesis using inner_token[OF u _ q(2) _ kw] by blast
  next
    case 3
    then have "suffix q ''key: [REDACTED]''" and "q \<noteq> ''key: [REDACTED]''"
      using q by simp_all
    then show ?thesis using inner_key[OF u _ q(2) _ kw] by blast
  next
    case 4
    then have "suffix q ''secret: [REDACTED]''" and "q \<noteq> ''secret: [REDACTED]''"
      using q by simp_all
    then show ?thesis using inner_secret[OF u _ q(2) _ kw] by blast
  qed
qed

lemma match_inside_replacement:
  assumes kw: "kw \<in> set keyWords" and kw': "kw' \<in> set keyWords" and u: "spaceHead u"
    and t: "suffix t (kw' @ '': [REDACTED]'' @ u)"
    and m: "matchKeyValue kw t = Some r"
  shows "suffix t u \<or> (kw = kw' \<and> t = kw @ '': [REDACTED]'' @ u \<and> r = u)"
proof -
  have "suffix t ((kw' @ '': [REDACTED]'') @ u)" using t by simp
  then consider "suffix t u" | q where "suffix q (kw' @ '': [REDACTED]'')" "t = q @ u"
    unfolding suffix_append by blast
  then show ?thesis
  proof cases
    case 1
    then show ?thesis by simp
  next
    case 2
    show ?thesis
    proof (cases "q = [] \<or> q = kw' @ '': [REDACTED]''")
      case False
      then have "matchKeyValue kw (q @ u) = None"
        using inner_none[OF kw kw' u 2(1)] by simp
      then show ?thesis using m 2(2) by simp
    next
      case True
      then show ?thesis
      proof
        assume "q = []"
        then show ?thesis using 2(2) by simp
      next
        assume whole: "q = kw' @ '': [REDACTED]''"
        then have tt: "t = kw' @ '': [REDACTED]'' @ u" using 2(2) by simp
        have "matchKeyValue kw (kw' @ '': [REDACTED]'' @ u) \<noteq> None" using m tt by simp
        then have same: "kw = kw'"
          using match_in_replacement[OF kw kw' u suffix_order.refl] by blast
        then have "matchKeyValue kw t = Some u" using match_replacement[OF kw u] tt by simp
        then show ?thesis using m tt same by simp
      qed
    qed
  qed
qed

lemma keyWords_head:
  "kw \<in> set keyWords \<Longrightarrow> kw \<noteq> [] \<and> \<not> isSpace (hd kw)"
  by (auto simp: keyWords_def space_chars)

lemma redact_spaceHead:
  assumes "kw \<in> set keyWords" and "spaceHead r"
  shows "spaceHead (redact kw r)"
proof (cases r)
  case Nil
  then show ?thesis by (simp add: spaceHead_def)
next
  case (Cons x xs)
  obtain k ks where k: "kw = k # ks" "\<not> isSpace k"
    using keyWords_head[OF assms(1)] by (cases kw) auto
  have "matchKeyValue kw (x # xs) = None"
    using spaceHead_matchKeyValue[OF assms(2) k(2)] Cons k(1) by simp
  then show ?thesis using assms(2) Cons by (simp add: redact_Cons spaceHead_def)
qed

lemma redact_copies:
  assumes "\<And>q. suffix q p \<Longrightarrow> q \<noteq> [] \<Longrightarrow> matchKeyValue kw (q @ r) = None"
  shows "redact kw (p @ r) = p @ redact kw r"
  using assms
proof (induction p)
  case Nil
  then show ?case by simp
next
  case (Cons c p)
  have "matchKeyValue kw ((c # p) @ r) = None" using Cons.prems[of "c # p"] by simp
  moreover have "redact kw (p @ r) = p @ redact kw r"
    using Cons.IH Cons.prems by (simp add: suffix_Cons)
  ultimately show ?case by (simp add: redact_Cons)
qed

lemma redact_keeps_replacement:
  assumes kw: "kw \<in> set keyWords" and kw': "kw' \<in> set keyWords" and ne: "kw \<noteq> kw'"
    and r: "spaceHead r"
  shows "redact kw' (kw @ '': [REDACTED]'' @ r) = kw @ '': [REDACTED]'' @ redact kw' r"
proof -
  have "matchKeyValue kw' (q @ r) = None" if q: "suffix q (kw @ '': [REDACTED]'')" "q \<noteq> []" for q
  proof (cases "matchKeyValue kw' (q @ r)")
    case None then show ?thesis .
  next
    case (Some x)
    from q(1) obtain z where "kw @ '': [REDACTED]'' = z @ q"
      unfolding suffix_def by blast
    then have "(kw @ '': [REDACTED]'') @ r = (z @ q) @ r"
      by (rule arg_cong)
    then have "kw @ '': [REDACTED]'' @ r = z @ (q @ r)"
      by (simp only: append_assoc)
    then have "suffix (q @ r) (kw @ '': [REDACTED]'' @ r)"
      unfolding suffix_def by blast
    from match_inside_replacement[OF kw' kw r this Some] ne
    have "suffix (q @ r) r" by auto
    then have "length (q @ r) \<le> length r" by (rule suffix_length_le)
    then show ?thesis using q(2) by simp
  qed
  then have "redact kw' ((kw @ '': [REDACTED]'') @ r) = (kw @ '': [REDACTED]'') @ redact kw' r"
    by (rule redact_copies)
  then show ?thesis by simp
qed

lemma redacted_fixed: "redacted kw s \<Longrightarrow> redact kw s = s"
proof (induction s rule: length_induct)
  case (1 s)
  show ?case
  proof (cases s)
    case Nil then show ?thesis by simp
  next
    case (Cons c cs)
    show ?thesis
    proof (cases "matchKeyValue kw (c # cs)")
      case None
      have "redacted kw cs" using "1.prems" Cons by (auto simp: redacted_def suffix_Cons)
      then have "redact kw cs = cs" using "1.IH" Cons by simp
      then show ?thesis using None Cons by (simp add: redact_Cons)
    next
      case (Some r)
      have eq: "c # cs = kw @ '': [REDACTED]'' @ r"
        using "1.prems" Some Cons by (simp add: redacted_def)
      have suf: "suffix r s" and len: "length r < length s"
        using matchKeyValue_rest[OF Some] Cons by simp_all
      have "redacted kw r"
        using "1.prems" suf by (auto simp: redacted_def dest: suffix_order.trans)
      then have same: "redact kw r = r" using "1.IH" len by simp
      have "redact kw (c # cs) = kw @ '': [REDACTED]'' @ redact kw r"
        using Some by (simp add: redact_Cons)
      then show ?thesis using same eq Cons by simp
    qed
  qed
qed

lemma redacted_redact:
  assumes kw: "kw \<in> set keyWords" and kw': "kw' \<in> set keyWords"
  shows "kw \<noteq> kw' \<longrightarrow> redacted kw s \<Longrightarrow> redacted kw (redact kw' s)"
proof (induction s rule: length_induct)
  case (1 s)
  note head = keyWords_head[OF kw']
  have sim: "matchKeyValue kw (redact kw' x) \<noteq> None \<Longrightarrow> matchKeyValue kw x \<noteq> None" for x
    using matchKeyValue_redact[of kw' kw kw x]
      match_in_replacement[OF kw kw'] redact_spaceHead[OF kw'] head
    by blast
  show ?case
  proof (cases s)
    case Nil
    then show ?thesis by (simp add: redacted_def)
  next
    case (Cons c cs)
    show ?thesis
    proof (cases "matchKeyValue kw' (c # cs)")
      case None
      then have red: "redact kw' s = c # redact kw' cs" using Cons by (simp add: redact_Cons)
      have tl: "redacted kw (redact kw' cs)"
        using "1.IH" "1.prems" Cons by (auto simp: redacted_def suffix_Cons)
      have hd: "c # redact kw' cs = kw @ '': [REDACTED]'' @ r"
        if m: "matchKeyValue kw (c # redact kw' cs) = Some r" for r
      proof -
        have "matchKeyValue kw (c # cs) \<noteq> None" using sim[of s] m red Cons by simp
        then obtain r0 where r0: "matchKeyValue kw (c # cs) = Some r0" by auto
        then have ne: "kw \<noteq> kw'" using None by auto
        then have old: "c # cs = kw @ '': [REDACTED]'' @ r0"
          using "1.prems" r0 Cons by (simp add: redacted_def)
        have sp: "spaceHead r0" using matchKeyValue_rest[OF r0] by simp
        have new: "c # redact kw' cs = kw @ '': [REDACTED]'' @ redact kw' r0"
          using redact_keeps_replacement[OF kw kw' ne sp] old red Cons by simp
        have "matchKeyValue kw (kw @ '': [REDACTED]'' @ redact kw' r0) = Some (redact kw' r0)"
          using match_replacement[OF kw redact_spaceHead[OF kw' sp]] .
        then have "r = redact kw' r0" using m new by simp
        then show ?thesis using new by simp
      qed
      show ?thesis
        unfolding red redacted_def
        using tl hd by (auto simp: suffix_Cons redacted_def)
    next
      case (Some rest)
      then have red: "redact kw' s = kw' @ '': [REDACTED]'' @ redact kw' rest"
        using Cons by (simp add: redact_Cons)
      have suf: "suffix rest s" and len: "length rest < length s" and sp: "spaceHead rest"
        using matchKeyValue_rest[OF Some] Cons by simp_all
      have "kw \<noteq> kw' \<longrightarrow> redacted kw rest"
        using "1.prems" suf by (auto simp: redacted_def dest: suffix_order.trans)
      then have tl: "redacted kw (redact kw' rest)" using "1.IH" len by simp
      have spr: "spaceHead (redact kw' rest)" using redact_spaceHead[OF kw' sp] .
      show ?thesis
        unfolding red redacted_def
      proof (intro allI impI)
        fix t r
        assume t: "suffix t (kw' @ '': [REDACTED]'' @ redact kw' rest)"
          and m: "matchKeyValue kw t = Some r"
        from match_inside_replacement[OF kw kw' spr t m]
        show "t = kw @ '': [REDACTED]'' @ r"
          using tl m by (auto simp: redacted_def)
      qed
    qed
  qed
qed

lemma filterString_redacted:
  assumes "kw \<in> set keyWords"
  shows "redacted kw (filterString s)"
proof -
  have pw: "''password'' \<in> set keyWords" and tok: "''token'' \<in> set keyWords"
    and key: "''key'' \<in> set keyWords" and sec: "''secret'' \<in> set keyWords"
    by (simp_all add: keyWords_def)
  let ?s1 = "redact ''password'' s"
  let ?s2 = "redact ''token'' ?s1"
  let ?s3 = "redact ''key'' ?s2"
  let ?s4 = "redact ''secret'' ?s3"
  have p1: "redacted ''password'' ?s1" by (rule redacted_redact[OF pw pw]) simp
  have p2: "redacted ''password'' ?s2" using redacted_redact[OF pw tok] p1 by blast
  have p3: "redacted ''password'' ?s3" using redacted_redact[OF pw key] p2 by blast
  have p4: "redacted ''password'' ?s4" using redacted_redact[OF pw sec] p3 by blast
  have t2: "redacted ''token'' ?s2" by (rule redacted_redact[OF tok tok]) simp
  have t3: "redacted ''token'' ?s3" using redacted_redact[OF tok key] t2 by blast
  have t4: "redacted ''token'' ?s4" using redacted_redact[OF tok sec] t3 by blast
  have k3: "redacted ''key'' ?s3" by (rule redacted_redact[OF key key]) simp
  have k4: "redacted ''key'' ?s4" using redacted_redact[OF key sec] k3 by blast
  have s4: "redacted ''secret'' ?s4" by (rule redacted_redact[OF sec sec]) simp
  from assms consider "kw = ''password''" | "kw = ''token''" | "kw = ''key''" | "kw = ''secret''"
    by (auto simp: keyWords_def)
  then show ?thesis
    using p4 t4 k4 s4 by cases (simp_all add: filterString_def)
qed

lemma filterString_fixed:
  assumes "\<And>kw. kw \<in> set keyWords \<Longrightarrow> redacted kw s"
  shows "filterString s = s"
proof -
  have "redact ''password'' s = s" "redact ''token'' s = s" "redact ''key'' s = s"
    "redact ''secret'' s = s"
    using assms by (simp_all add: redacted_fixed keyWords_def)
  then show ?thesis by (simp add: filterString_def)
qed

text \<open>
  Claim C7. \<open>filterOutput\<close> is idempotent: on a string, the four replacements leave a text
  in which every match of each of the four expressions is already its own replacement, so a
  second run changes nothing; a value that is not a string is returned as it is. The
  redacted text \<open>password: [REDACTED]\<close> is returned unchanged.
\<close>

theorem filterOutput_idempotent:
  "filterOutput (filterOutput v) = filterOutput v
   \<and> filterOutput (filterOutput (JString s)) = filterOutput (JString s)
   \<and> filterOutput (JString ''password: [REDACTED]'') = JString ''password: [REDACTED]''"
proof -
  have str: "filterString (filterString x) = filterString x" for x
    by (rule filterString_fixed) (rule filterString_redacted)
  have any: "filterOutput (filterOutput w) = filterOutput w" for w
    by (cases w) (simp_all add: str)
  have "filterString ''password: [REDACTED]'' = ''password: [REDACTED]''"
    by code_simp
  then show ?thesis using any str by simp
qed

end
